theory Spec2Isabelle
  imports Complex_Main
begin

section \<open>JavaScript values as the handlers of server.js receive them\<close>

text \<open>
  The three handlers read \<^verbatim>\<open>req.body\<close>, which the JSON body parser has already turned
  into a JavaScript value, and \<^verbatim>\<open>req.params.gameId\<close>. A parsed JSON value is null, a
  boolean, a number, a string, an array or an object (its own properties, each name
  once). The body itself is an object or an array: the parser accepts nothing else at
  the top, and hands over the empty object when a request has no body, as the requests
  of the test file that send \<^verbatim>\<open>null\<close> do. A number is an IEEE double:
  \<open>Fin r\<close> stands for the finite double of value \<open>r\<close> (negative zero is identified with
  zero, which no operator used by server.js distinguishes), \<open>PInf\<close> and \<open>NInf\<close> for
  the infinities (the parser yields one for a literal such as 1e999) and \<open>NaN\<close> for
  not-a-number. The operators below are the exact ones on doubles (remainder by 1,
  comparisons) or are applied by the handlers only to integers between 1 and 16, where
  double arithmetic is exact. Strings are ASCII strings.
\<close>

datatype jsnum = Fin rat | PInf | NInf | NaN

datatype jsval =
    JNull
  | JBool bool
  | JNum jsnum
  | JStr string
  | JArr "jsval list"
  | JObj "(string \<times> jsval) list"

text \<open>
  What the language runtime does to convert a string to a number (\<^verbatim>\<open>Number("0x10")\<close> is
  16, \<^verbatim>\<open>Number("a")\<close> is NaN) and an array or object to a primitive (an array is joined
  with commas, a plain object gives \<^verbatim>\<open>"[object Object]"\<close>, and an object parsed from
  \<^verbatim>\<open>{"toString": 1}\<close> makes the conversion throw a TypeError, here \<open>None\<close>) is not code
  of server.js. Both conversions are parameters of the model, and every theorem holds
  whatever they are.
\<close>

record runtime =
  StringToNumber :: "string \<Rightarrow> jsnum"
  ToPrimitive :: "jsval \<Rightarrow> string option"

text \<open>In the results below \<open>None\<close> is a thrown TypeError.\<close>

definition ToNumber :: "runtime \<Rightarrow> jsval \<Rightarrow> jsnum option" where
  "ToNumber rt v =
     (case v of
        JNull \<Rightarrow> Some (Fin 0)
      | JBool b \<Rightarrow> Some (Fin (if b then 1 else 0))
      | JNum n \<Rightarrow> Some n
      | JStr s \<Rightarrow> Some (StringToNumber rt s)
      | JArr xs \<Rightarrow> map_option (StringToNumber rt) (ToPrimitive rt v)
      | JObj kvs \<Rightarrow> map_option (StringToNumber rt) (ToPrimitive rt v))"

definition isNaN :: "jsnum \<Rightarrow> bool" where
  "isNaN n = (n = NaN)"

definition trunc :: "rat \<Rightarrow> int" where
  "trunc r = (if 0 \<le> r then \<lfloor>r\<rfloor> else \<lceil>r\<rceil>)"

definition rem1 :: "jsnum \<Rightarrow> jsnum" where
  \<comment> \<open>\<^verbatim>\<open>n % 1\<close>: the remainder of the division truncated towards zero\<close>
  "rem1 n = (case n of Fin r \<Rightarrow> Fin (r - of_int (trunc r)) | _ \<Rightarrow> NaN)"

definition num_ge :: "jsnum \<Rightarrow> rat \<Rightarrow> bool" where
  \<comment> \<open>\<^verbatim>\<open>n >= k\<close> for a finite constant k\<close>
  "num_ge n k = (case n of Fin r \<Rightarrow> k \<le> r | PInf \<Rightarrow> True | NInf \<Rightarrow> False | NaN \<Rightarrow> False)"

definition num_le :: "jsnum \<Rightarrow> rat \<Rightarrow> bool" where
  \<comment> \<open>\<^verbatim>\<open>n <= k\<close> for a finite constant k\<close>
  "num_le n k = (case n of Fin r \<Rightarrow> r \<le> k | PInf \<Rightarrow> False | NInf \<Rightarrow> True | NaN \<Rightarrow> False)"

definition num_add :: "jsnum \<Rightarrow> rat \<Rightarrow> jsnum" where
  \<comment> \<open>adding a finite constant to a number\<close>
  "num_add n k = (case n of Fin r \<Rightarrow> Fin (r + k) | _ \<Rightarrow> n)"

definition minus :: "runtime \<Rightarrow> jsval \<Rightarrow> nat \<Rightarrow> jsval option" where
  \<comment> \<open>\<^verbatim>\<open>tile - k\<close>: always numeric\<close>
  "minus rt tile k = map_option (\<lambda>n. JNum (num_add n (- of_nat k))) (ToNumber rt tile)"

definition digit :: "nat \<Rightarrow> string" where
  \<comment> \<open>the decimal text of a one-digit number, as string concatenation produces it\<close>
  "digit k = [''0123456789'' ! k]"

definition plus :: "runtime \<Rightarrow> jsval \<Rightarrow> nat \<Rightarrow> jsval option" where
  \<comment> \<open>\<^verbatim>\<open>tile + k\<close> for a one-digit k: concatenation when the left operand is a string
      or converts to one (an array, an object), numeric addition otherwise\<close>
  "plus rt tile k =
     (case tile of
        JStr s \<Rightarrow> Some (JStr (s @ digit k))
      | JArr xs \<Rightarrow> map_option (\<lambda>s. JStr (s @ digit k)) (ToPrimitive rt tile)
      | JObj kvs \<Rightarrow> map_option (\<lambda>s. JStr (s @ digit k)) (ToPrimitive rt tile)
      | _ \<Rightarrow> map_option (\<lambda>n. JNum (num_add n (of_nat k))) (ToNumber rt tile))"

definition strict_eq :: "jsval \<Rightarrow> jsval \<Rightarrow> bool" where
  \<comment> \<open>\<^verbatim>\<open>a === b\<close> where \<open>a\<close> is a freshly computed number or string: an array or an
      object on the right is never identical to it\<close>
  "strict_eq a b =
     (case (a, b) of
        (JNum x, JNum y) \<Rightarrow> x \<noteq> NaN \<and> x = y
      | (JStr s, JStr t) \<Rightarrow> s = t
      | (JBool p, JBool q) \<Rightarrow> p = q
      | (JNull, JNull) \<Rightarrow> True
      | _ \<Rightarrow> False)"

definition truthy :: "jsval \<Rightarrow> bool" where
  "truthy v =
     (case v of
        JNull \<Rightarrow> False
      | JBool b \<Rightarrow> b
      | JNum n \<Rightarrow> n \<noteq> Fin 0 \<and> n \<noteq> NaN
      | JStr s \<Rightarrow> s \<noteq> []
      | JArr xs \<Rightarrow> True
      | JObj kvs \<Rightarrow> True)"

definition Array_isArray :: "jsval \<Rightarrow> bool" where
  "Array_isArray v = (case v of JArr xs \<Rightarrow> True | _ \<Rightarrow> False)"

definition elems :: "jsval \<Rightarrow> jsval list" where
  "elems v = (case v of JArr xs \<Rightarrow> xs | _ \<Rightarrow> [])"

definition is_string :: "jsval \<Rightarrow> bool" where
  \<comment> \<open>\<^verbatim>\<open>typeof v === "string"\<close>\<close>
  "is_string v = (case v of JStr s \<Rightarrow> True | _ \<Rightarrow> False)"

definition str :: "jsval \<Rightarrow> string" where
  "str v = (case v of JStr s \<Rightarrow> s | _ \<Rightarrow> [])"

definition field :: "jsval \<Rightarrow> string \<Rightarrow> jsval option" where
  \<comment> \<open>\<^verbatim>\<open>v.name\<close> on a value that is not null, for the two names server.js reads
      (\<^verbatim>\<open>board\<close>, \<^verbatim>\<open>words\<close>), which no prototype defines: the own property of an
      object, \<open>None\<close> (undefined) otherwise\<close>
  "field v name = (case v of JObj kvs \<Rightarrow> map_of kvs name | _ \<Rightarrow> None)"

fun every :: "('a \<Rightarrow> bool option) \<Rightarrow> 'a list \<Rightarrow> bool option" where
  \<comment> \<open>\<^verbatim>\<open>xs.every(f)\<close>: stops at the first element that fails, or that throws\<close>
  "every f [] = Some True"
| "every f (x # xs) =
     (case f x of None \<Rightarrow> None | Some ok \<Rightarrow> if ok then every f xs else Some False)"

fun map_throwing :: "('a \<Rightarrow> 'b option) \<Rightarrow> 'a list \<Rightarrow> 'b list option" where
  \<comment> \<open>\<^verbatim>\<open>xs.map(f)\<close> for an f that may throw\<close>
  "map_throwing f [] = Some []"
| "map_throwing f (x # xs) =
     (case f x of None \<Rightarrow> None | Some y \<Rightarrow> map_option ((#) y) (map_throwing f xs))"

definition or_else :: "bool option \<Rightarrow> bool option \<Rightarrow> bool option" where
  \<comment> \<open>\<^verbatim>\<open>a || b\<close> on booleans: b is evaluated only when a is false\<close>
  "or_else a b = (case a of None \<Rightarrow> None | Some x \<Rightarrow> if x then Some True else b)"

definition lowerCase :: string where
  "lowerCase = ''abcdefghijklmnopqrstuvwxyz''"

definition upperCase :: string where
  "upperCase = ''ABCDEFGHIJKLMNOPQRSTUVWXYZ''"

definition upper :: "char \<Rightarrow> char" where
  "upper c = (case map_of (zip lowerCase upperCase) c of None \<Rightarrow> c | Some C \<Rightarrow> C)"

definition toUpperCase :: "string \<Rightarrow> string" where
  "toUpperCase s = map upper s"

section \<open>The games\<close>

text \<open>
  \<^verbatim>\<open>// Game : { "dict": {String: Boolean}, "board": [String], "moves": [[Number]] }\<close>
  \<^verbatim>\<open>const games = []\<close>

  The dictionary is \<open>None\<close> while it is \<^verbatim>\<open>null\<close>, and then the own properties of the
  object that \<^verbatim>\<open>setGameDict\<close> builds. A game's identifier is its index in \<open>games\<close>. In
  the handlers of the section Controllers the route parameter \<^verbatim>\<open>:gameId\<close> is the
  decimal text of such an index, a natural number; the section on the route parameter
  adds the parameter \<^verbatim>\<open>length\<close>. A handler that throws is answered by the
  framework with status 500 and has changed nothing before it threw.
\<close>

record game =
  dict :: "(string \<rightharpoonup> bool) option"
  board :: "string list"
  moves :: "jsval list list"

type_synonym games = "game list"

datatype response =
    GameCreated nat            \<comment> \<open>201 \<^verbatim>\<open>{gameId}\<close>\<close>
  | InvalidBoard               \<comment> \<open>400 "Invalid board"\<close>
  | NotFound                   \<comment> \<open>404 "Game was not found"\<close>
  | InvalidDictionary          \<comment> \<open>400 "Invalid dictionary"\<close>
  | DictionarySet              \<comment> \<open>204\<close>
  | DictionaryMissing          \<comment> \<open>403 "Game is missing dictionary"\<close>
  | MalformedMove              \<comment> \<open>400 "Move must be list of 3+ tiles"\<close>
  | DisallowedMove             \<comment> \<open>403 "Move is not allowed on board"\<close>
  | DuplicateMove              \<comment> \<open>403 "Move already played"\<close>
  | MoveMade nat rat           \<comment> \<open>201 \<^verbatim>\<open>{moveId, points}\<close>\<close>
  | ServerError                \<comment> \<open>500: the handler threw\<close>

section \<open>Helpers\<close>

definition boardIsValid :: "jsval \<Rightarrow> bool option" where
  "boardIsValid boardWrapper =
     (if boardWrapper = JNull then None
      else Some (case field boardWrapper ''board'' of
                   None \<Rightarrow> False
                 | Some b \<Rightarrow>
                     truthy b \<and> Array_isArray b \<and> length (elems b) = 16
                     \<and> list_all (\<lambda>char. is_string char \<and> length (str char) = 1) (elems b)))"

definition dictIsValid :: "jsval \<Rightarrow> bool option" where
  "dictIsValid dictWrapper =
     (if dictWrapper = JNull then None
      else Some (case field dictWrapper ''words'' of
                   None \<Rightarrow> False
                 | Some ws \<Rightarrow>
                     truthy ws \<and> Array_isArray ws \<and> list_all (\<lambda>word. is_string word) (elems ws)))"

definition tileIsValid :: "runtime \<Rightarrow> jsval \<Rightarrow> bool option" where
  "tileIsValid rt tile =
     map_option (\<lambda>n. \<not> isNaN n \<and> rem1 n = Fin 0 \<and> num_ge n 1 \<and> num_le n 16) (ToNumber rt tile)"

definition board_at :: "string list \<Rightarrow> jsnum \<Rightarrow> string" where
  \<comment> \<open>\<^verbatim>\<open>game.board[n]\<close>, joined: an index outside the array gives undefined, which
      \<^verbatim>\<open>join\<close> writes as the empty string\<close>
  "board_at b n =
     (case n of
        Fin r \<Rightarrow>
          if of_int \<lfloor>r\<rfloor> = r \<and> 0 \<le> r \<and> r < of_nat (length b) then b ! nat \<lfloor>r\<rfloor> else []
      | _ \<Rightarrow> [])"

definition tilesToWord :: "runtime \<Rightarrow> jsval list \<Rightarrow> game \<Rightarrow> string option" where
  "tilesToWord rt tiles game =
     map_option (\<lambda>letters. toUpperCase (concat letters))
       (map_throwing
          (\<lambda>tile. map_option (\<lambda>n. board_at (board game) (num_add n (- 1))) (ToNumber rt tile))
          tiles)"

definition isConsecutiveNeighbor :: "runtime \<Rightarrow> jsval \<Rightarrow> nat \<Rightarrow> jsval list \<Rightarrow> bool option" where
  "isConsecutiveNeighbor rt tile index tiles =
     (if index = 0 then Some True
      else
        let lastTile = tiles ! (index - 1) in
        or_else (map_option (\<lambda>v. strict_eq v lastTile) (minus rt tile 4))
       (or_else (map_option (\<lambda>v. strict_eq v lastTile) (plus rt tile 4))
       (or_else (map_option (\<lambda>v. strict_eq v lastTile) (minus rt tile 1))
       (or_else (map_option (\<lambda>v. strict_eq v lastTile) (plus rt tile 1))
       (or_else (map_option (\<lambda>v. strict_eq v lastTile) (minus rt tile 3))
       (or_else (map_option (\<lambda>v. strict_eq v lastTile) (plus rt tile 3))
       (or_else (map_option (\<lambda>v. strict_eq v lastTile) (minus rt tile 5))
                (map_option (\<lambda>v. strict_eq v lastTile) (plus rt tile 5)))))))))"

definition is_primitive :: "jsval \<Rightarrow> bool" where
  "is_primitive v = (case v of JArr xs \<Rightarrow> False | JObj kvs \<Rightarrow> False | _ \<Rightarrow> True)"

fun Set_size :: "jsval list \<Rightarrow> nat" where
  \<comment> \<open>\<^verbatim>\<open>(new Set(tiles)).size\<close>: equal primitives count once; every array or object of
      a parsed body is an object of its own and counts\<close>
  "Set_size [] = 0"
| "Set_size (x # xs) = (if is_primitive x \<and> x \<in> set xs then Set_size xs else Suc (Set_size xs))"

definition Object_prototype :: "string list" where
  \<comment> \<open>the properties every plain object inherits\<close>
  "Object_prototype =
     [''constructor'', ''__defineGetter__'', ''__defineSetter__'', ''hasOwnProperty'',
      ''__lookupGetter__'', ''__lookupSetter__'', ''isPrototypeOf'', ''propertyIsEnumerable'',
      ''toString'', ''valueOf'', ''__proto__'', ''toLocaleString'']"

definition lookup :: "(string \<rightharpoonup> bool) \<Rightarrow> string \<Rightarrow> bool" where
  \<comment> \<open>the truth value of \<^verbatim>\<open>dict[word]\<close>: an own property, else an inherited one
      (a function or the prototype, both truthy), else undefined\<close>
  "lookup d word =
     (case d word of Some b \<Rightarrow> b | None \<Rightarrow> word \<in> set Object_prototype)"

definition assign :: "(string \<rightharpoonup> bool) \<Rightarrow> string \<Rightarrow> (string \<rightharpoonup> bool)" where
  \<comment> \<open>\<^verbatim>\<open>Object.assign(dict, {[key]: true})\<close>: setting \<^verbatim>\<open>__proto__\<close> to a boolean
      changes nothing\<close>
  "assign d key = (if key = ''__proto__'' then d else d(key \<mapsto> True))"

definition allNeighbors :: "runtime \<Rightarrow> jsval list \<Rightarrow> bool option" where
  \<comment> \<open>\<^verbatim>\<open>tiles.every(isConsecutiveNeighbor)\<close>: the callback gets the element, its
      index and the array\<close>
  "allNeighbors rt tiles =
     every (\<lambda>index. isConsecutiveNeighbor rt (tiles ! index) index tiles) [0 ..< length tiles]"

definition moveIsAllowed :: "runtime \<Rightarrow> jsval list \<Rightarrow> game \<Rightarrow> bool option" where
  "moveIsAllowed rt tiles game =
     (if \<not> 3 \<le> length tiles then Some False
      else
        case allNeighbors rt tiles of
          None \<Rightarrow> None
        | Some neighbors \<Rightarrow>
            if \<not> neighbors then Some False
            else if length tiles \<noteq> Set_size tiles then Some False
            else
              (case tilesToWord rt tiles game of
                 None \<Rightarrow> None
               | Some word \<Rightarrow>
                   (case dict game of None \<Rightarrow> None | Some d \<Rightarrow> Some (lookup d word))))"

definition moveExists :: "runtime \<Rightarrow> jsval list \<Rightarrow> game \<Rightarrow> bool option" where
  "moveExists rt tiles game =
     (case map_throwing (\<lambda>move. tilesToWord rt move game) (moves game) of
        None \<Rightarrow> None
      | Some played \<Rightarrow> map_option (\<lambda>word. word \<in> set played) (tilesToWord rt tiles game))"

definition pow2 :: "int \<Rightarrow> rat" where
  \<comment> \<open>\<^verbatim>\<open>Math.pow(2, n)\<close> for an integer n, exact below the overflow of a double
      (n under 1024)\<close>
  "pow2 n = (if 0 \<le> n then 2 ^ nat n else 1 / 2 ^ nat (- n))"

section \<open>Controllers\<close>

definition createGame :: "jsval \<Rightarrow> games \<Rightarrow> response \<times> games" where
  "createGame boardWrapper games =
     (case boardIsValid boardWrapper of
        None \<Rightarrow> (ServerError, games)
      | Some valid \<Rightarrow>
          if \<not> valid then (InvalidBoard, games)
          else
            let gameId = length games in
            (GameCreated gameId,
             games @ [\<lparr> dict = None,
                        board = map (\<lambda>char. toUpperCase (str char))
                                  (elems (the (field boardWrapper ''board''))),
                        moves = [] \<rparr>]))"

definition setGameDict :: "nat \<Rightarrow> jsval \<Rightarrow> games \<Rightarrow> response \<times> games" where
  "setGameDict gameId dictWrapper games =
     (if \<not> gameId < length games then (NotFound, games)
      else
        let game = games ! gameId in
        case dictIsValid dictWrapper of
          None \<Rightarrow> (ServerError, games)
        | Some valid \<Rightarrow>
            if \<not> valid then (InvalidDictionary, games)
            else
              (DictionarySet,
               games[gameId := game\<lparr> dict :=
                 Some (foldl (\<lambda>d word. assign d (toUpperCase (str word))) Map.empty
                         (elems (the (field dictWrapper ''words'')))) \<rparr>]))"

definition tilesAreValid :: "runtime \<Rightarrow> jsval \<Rightarrow> bool option" where
  \<comment> \<open>\<^verbatim>\<open>Array.isArray(tiles) && tiles.every(tileIsValid)\<close>, the test of line 96\<close>
  "tilesAreValid rt tiles =
     (if \<not> Array_isArray tiles then Some False else every (tileIsValid rt) (elems tiles))"

definition makeMove :: "runtime \<Rightarrow> nat \<Rightarrow> jsval \<Rightarrow> games \<Rightarrow> response \<times> games" where
  "makeMove rt gameId tiles games =
     (if \<not> gameId < length games then (NotFound, games)
      else
        let game = games ! gameId in
        if dict game = None then (DictionaryMissing, games)
        else
          case tilesAreValid rt tiles of
            None \<Rightarrow> (ServerError, games)
          | Some valid \<Rightarrow>
              if \<not> valid then (MalformedMove, games)
              else
                (case moveIsAllowed rt (elems tiles) game of
                   None \<Rightarrow> (ServerError, games)
                 | Some allowed \<Rightarrow>
                     if \<not> allowed then (DisallowedMove, games)
                     else
                       (case moveExists rt (elems tiles) game of
                          None \<Rightarrow> (ServerError, games)
                        | Some played \<Rightarrow>
                            if played then (DuplicateMove, games)
                            else
                              let moveId = length (moves game);
                                  points = pow2 (int (length (elems tiles)) - 3)
                              in (MoveMade moveId points,
                                  games[gameId := game\<lparr> moves := moves game @ [elems tiles] \<rparr>]))))"

section \<open>The route parameter\<close>

text \<open>
  \<^verbatim>\<open>const game = games[gameId]\<close> reads a property of the array \<open>games\<close> by the text of the
  route parameter. For the decimal text of a natural number this is the element at that
  index, or undefined; the handlers above are the code for such a parameter. For the text
  \<^verbatim>\<open>length\<close> it is the number of games, a number that is truthy as soon as there is
  one game. The handlers below are the code for both kinds of parameter. The names of
  the methods and of the other properties that an array inherits are not modelled.
\<close>

datatype routeId = Index nat | Length

datatype entry =
    Undefined        \<comment> \<open>no such property\<close>
  | GameAt nat       \<comment> \<open>the game at an index\<close>
  | Count nat        \<comment> \<open>the number \<^verbatim>\<open>games.length\<close>\<close>

definition gamesAt :: "games \<Rightarrow> routeId \<Rightarrow> entry" where
  \<comment> \<open>\<^verbatim>\<open>games[gameId]\<close>\<close>
  "gamesAt games gameId =
     (case gameId of
        Index n \<Rightarrow> if n < length games then GameAt n else Undefined
      | Length \<Rightarrow> Count (length games))"

definition makeMoveAt :: "runtime \<Rightarrow> routeId \<Rightarrow> jsval \<Rightarrow> games \<Rightarrow> response \<times> games" where
  \<comment> \<open>\<^verbatim>\<open>makeMove\<close>: \<^verbatim>\<open>!game\<close> is true of undefined and of the number 0 only, and
      \<^verbatim>\<open>game.dict\<close> is undefined when \<^verbatim>\<open>game\<close> is a number\<close>
  "makeMoveAt rt gameId tiles games =
     (case gamesAt games gameId of
        Undefined \<Rightarrow> (NotFound, games)
      | GameAt n \<Rightarrow> makeMove rt n tiles games
      | Count n \<Rightarrow> if n = 0 then (NotFound, games) else (DictionaryMissing, games))"

definition setGameDictAt :: "routeId \<Rightarrow> jsval \<Rightarrow> games \<Rightarrow> response \<times> games" where
  \<comment> \<open>\<^verbatim>\<open>setGameDict\<close>: the assignment \<^verbatim>\<open>game.dict = ...\<close> stores nothing when
      \<^verbatim>\<open>game\<close> is a number (the file is not in strict mode, so it does not throw)\<close>
  "setGameDictAt gameId dictWrapper games =
     (case gamesAt games gameId of
        Undefined \<Rightarrow> (NotFound, games)
      | GameAt n \<Rightarrow> setGameDict n dictWrapper games
      | Count n \<Rightarrow>
          if n = 0 then (NotFound, games)
          else
            (case dictIsValid dictWrapper of
               None \<Rightarrow> (ServerError, games)
             | Some valid \<Rightarrow>
                 if \<not> valid then (InvalidDictionary, games) else (DictionarySet, games)))"

section \<open>Routes\<close>

text \<open>
  \<^verbatim>\<open>server.post("/games", createGame)\<close>,
  \<^verbatim>\<open>server.put("/games/:gameId/dict", setGameDict)\<close>,
  \<^verbatim>\<open>server.post("/games/:gameId/moves", makeMove)\<close>.
  The server handles one request at a time; \<open>serve\<close> is what it answers to a sequence of
  requests, and a state is reachable when some sequence of requests leads to it from the
  empty list of games the process starts with.
\<close>

datatype request =
    PostGames jsval
  | PutDict nat jsval
  | PostMoves nat jsval

fun route :: "runtime \<Rightarrow> request \<Rightarrow> games \<Rightarrow> response \<times> games" where
  "route rt (PostGames body) games = createGame body games"
| "route rt (PutDict gameId body) games = setGameDict gameId body games"
| "route rt (PostMoves gameId body) games = makeMove rt gameId body games"

fun serve :: "runtime \<Rightarrow> request list \<Rightarrow> games \<Rightarrow> response list \<times> games" where
  "serve rt [] games = ([], games)"
| "serve rt (req # reqs) games =
     (let (resp, games') = route rt req games;
          (resps, games'') = serve rt reqs games'
      in (resp # resps, games''))"

inductive reachable :: "runtime \<Rightarrow> games \<Rightarrow> bool" for rt :: runtime where
  start: "reachable rt []"
| step: "reachable rt games \<Longrightarrow> reachable rt (snd (route rt req games))"

definition history :: "games \<Rightarrow> nat \<Rightarrow> jsval list list" where
  \<comment> \<open>the moves of game \<open>gameId\<close>, none while the game does not exist\<close>
  "history games gameId = (if gameId < length games then moves (games ! gameId) else [])"

fun moveIds :: "nat \<Rightarrow> request list \<Rightarrow> response list \<Rightarrow> nat list" where
  \<comment> \<open>the \<^verbatim>\<open>moveId\<close>s answered to the accepted moves of game \<open>gameId\<close>, in order\<close>
  "moveIds gameId (PostMoves g body # reqs) (MoveMade moveId points # resps) =
     (if g = gameId then moveId # moveIds gameId reqs resps else moveIds gameId reqs resps)"
| "moveIds gameId (req # reqs) (resp # resps) = moveIds gameId reqs resps"
| "moveIds gameId reqs resps = []"

section \<open>The words of the specification\<close>

definition tile :: "nat \<Rightarrow> jsval" where
  \<comment> \<open>a tile index as the JSON number it is sent as\<close>
  "tile k = JNum (Fin (of_nat k))"

definition tileNumber :: "runtime \<Rightarrow> jsval \<Rightarrow> nat" where
  \<comment> \<open>the index a value that passed \<open>tileIsValid\<close> is used as\<close>
  "tileNumber rt v = (case ToNumber rt v of Some (Fin r) \<Rightarrow> nat \<lfloor>r\<rfloor> | _ \<Rightarrow> 0)"

definition derivedWord :: "string list \<Rightarrow> nat list \<Rightarrow> string" where
  \<comment> \<open>"concatenate, in path order, the letter at each tile index (1-indexed into the
      Board) to form a candidate word, then uppercase it"\<close>
  "derivedWord letters path = toUpperCase (concat (map (\<lambda>k. letters ! (k - 1)) path))"

definition offsets :: "int set" where
  \<comment> \<open>"one of \<plusminus>1, \<plusminus>3, \<plusminus>4, \<plusminus>5"\<close>
  "offsets = {1, - 1, 3, - 3, 4, - 4, 5, - 5}"

definition sixteenCharacters :: "jsval \<Rightarrow> char list \<Rightarrow> bool" where
  \<comment> \<open>"the input supplies a field holding a sequence of exactly 16 elements, each a
      string of length 1": the field is \<^verbatim>\<open>board\<close>, the characters are \<open>cs\<close>\<close>
  "sixteenCharacters input cs =
     (field input ''board'' = Some (JArr (map (\<lambda>c. JStr [c]) cs)) \<and> length cs = 16)"

definition accepted :: "nat \<Rightarrow> request \<Rightarrow> response \<Rightarrow> jsval list option" where
  \<comment> \<open>the tiles of a move submission to game \<open>gameId\<close> that was answered with a
      \<^verbatim>\<open>moveId\<close>; \<open>None\<close> for every other exchange\<close>
  "accepted gameId req resp =
     (case req of
        PostMoves g body \<Rightarrow>
          (case resp of
             MoveMade moveId points \<Rightarrow> if g = gameId then Some (elems body) else None
           | _ \<Rightarrow> None)
      | _ \<Rightarrow> None)"

definition wellFormed :: "runtime \<Rightarrow> game \<Rightarrow> bool" where
  \<comment> \<open>what the handlers keep true of every game: a board of 16 letters, and moves
      whose tiles all passed \<open>tileIsValid\<close>\<close>
  "wellFormed rt game =
     (length (board game) = 16
      \<and> list_all (\<lambda>move. list_all (\<lambda>t. tileIsValid rt t = Some True) move) (moves game))"

section \<open>A game to run the handlers on\<close>

text \<open>
  The board of the documentation's example request, sent in lower case, and a dictionary.
  On this board the test file's moves \<^verbatim>\<open>[6,1,2] // "FAB"\<close> and
  \<^verbatim>\<open>[12,15,1,4] // "LOAD"\<close> spell the words of its comments.
\<close>

definition exampleBoard :: jsval where
  "exampleBoard = JObj [(''board'', JArr (map (\<lambda>c. JStr [c]) ''abcdefghijklmnop''))]"

definition exampleWords :: jsval where
  "exampleWords =
     JObj [(''words'', JArr [JStr ''Fab'', JStr ''load'', JStr ''dea'', JStr ''abf'',
                             JStr ''ponmlkjihgfabcdea''])]"

definition created :: games where
  \<comment> \<open>one game, no dictionary yet\<close>
  "created = snd (createGame exampleBoard [])"

definition ready :: games where
  \<comment> \<open>the game with its dictionary\<close>
  "ready = snd (setGameDict 0 exampleWords created)"

definition session :: "request list" where
  \<comment> \<open>the requests of the test file, with more moves: accepted ones between a
      repeated, a disallowed and a malformed one\<close>
  "session =
     [PostGames exampleBoard,
      PutDict 0 exampleWords,
      PostMoves 0 (JArr (map tile [6, 1, 2])),
      PostMoves 0 (JArr (map tile [6, 1, 2])),
      PostMoves 0 (JArr (map tile [12, 15, 1, 4])),
      PostMoves 0 (JArr (map tile [1, 2, 6])),
      PostMoves 0 (JObj []),
      PostMoves 0 (JArr (map tile [4, 5, 1]))]"

definition echoBoard :: jsval where
  \<comment> \<open>a board on which two paths spell the same word\<close>
  "echoBoard = JObj [(''board'', JArr (map (\<lambda>c. JStr [c]) ''abababababababab''))]"

definition echo :: games where
  "echo = snd (setGameDict 0 (JObj [(''words'', JArr [JStr ''aba''])])
                 (snd (createGame echoBoard [])))"

definition played :: "runtime \<Rightarrow> games" where
  \<comment> \<open>the game after the move \<^verbatim>\<open>[6,1,2]\<close>, "FAB", has been made\<close>
  "played rt = snd (makeMove rt 0 (JArr (map tile [6, 1, 2])) ready)"


section \<open>Running the handlers\<close>

lemmas evals =
  createGame_def setGameDict_def makeMove_def boardIsValid_def dictIsValid_def
  tileIsValid_def tilesAreValid_def moveIsAllowed_def moveExists_def tilesToWord_def
  isConsecutiveNeighbor_def allNeighbors_def field_def truthy_def Array_isArray_def
  elems_def is_string_def str_def toUpperCase_def upper_def lowerCase_def upperCase_def
  assign_def lookup_def Object_prototype_def board_at_def pow2_def ToNumber_def isNaN_def
  rem1_def trunc_def num_ge_def num_le_def num_add_def minus_def plus_def digit_def
  strict_eq_def or_else_def is_primitive_def tile_def exampleBoard_def exampleWords_def
  upt_conv_Cons

lemma created_eq:
  "created = [\<lparr>dict = None, board = map (\<lambda>c. [c]) ''ABCDEFGHIJKLMNOP'', moves = []\<rparr>]"
  by (simp add: created_def evals)

lemma ready_eq:
  "ready =
     [\<lparr>dict = Some [''FAB'' \<mapsto> True, ''LOAD'' \<mapsto> True, ''DEA'' \<mapsto> True, ''ABF'' \<mapsto> True,
                     ''PONMLKJIHGFABCDEA'' \<mapsto> True],
       board = map (\<lambda>c. [c]) ''ABCDEFGHIJKLMNOP'', moves = []\<rparr>]"
  by (simp add: ready_def created_eq evals)

lemma fab_made: "fst (makeMove rt 0 (JArr (map tile [6, 1, 2])) ready) = MoveMade 0 1"
  unfolding ready_eq by (simp add: evals)

lemma played_eq:
  "played rt =
     [\<lparr>dict = Some [''FAB'' \<mapsto> True, ''LOAD'' \<mapsto> True, ''DEA'' \<mapsto> True, ''ABF'' \<mapsto> True,
                     ''PONMLKJIHGFABCDEA'' \<mapsto> True],
       board = map (\<lambda>c. [c]) ''ABCDEFGHIJKLMNOP'',
       moves = [[JNum (Fin 6), JNum (Fin 1), JNum (Fin 2)]]\<rparr>]"
  unfolding played_def ready_eq by (simp add: evals)

lemma fab_again: "fst (makeMove rt 0 (JArr (map tile [6, 1, 2])) (played rt)) = DuplicateMove"
  unfolding played_eq by (simp add: evals)

lemma load_disallowed:
  "fst (makeMove rt 0 (JArr (map tile [12, 15, 1, 4])) ready) = DisallowedMove"
  unfolding ready_eq by (simp add: evals)

section \<open>The order of the checks of makeMove\<close>

lemma makeMove_cases:
  "makeMove rt gameId tiles games =
     (if \<not> gameId < length games then (NotFound, games)
      else if dict (games ! gameId) = None then (DictionaryMissing, games)
      else if tilesAreValid rt tiles = None then (ServerError, games)
      else if tilesAreValid rt tiles = Some False then (MalformedMove, games)
      else if moveIsAllowed rt (elems tiles) (games ! gameId) = None then (ServerError, games)
      else if moveIsAllowed rt (elems tiles) (games ! gameId) = Some False
        then (DisallowedMove, games)
      else if moveExists rt (elems tiles) (games ! gameId) = None then (ServerError, games)
      else if moveExists rt (elems tiles) (games ! gameId) = Some True
        then (DuplicateMove, games)
      else (MoveMade (length (moves (games ! gameId))) (pow2 (int (length (elems tiles)) - 3)),
            games[gameId := (games ! gameId)
                    \<lparr> moves := moves (games ! gameId) @ [elems tiles] \<rparr>]))"
  by (simp add: makeMove_def Let_def split: option.splits)

lemma makeMove_made:
  assumes "fst (makeMove rt gameId tiles games) = MoveMade moveId points"
  shows "gameId < length games" and "dict (games ! gameId) \<noteq> None"
    and "tilesAreValid rt tiles = Some True"
    and "moveIsAllowed rt (elems tiles) (games ! gameId) = Some True"
    and "moveExists rt (elems tiles) (games ! gameId) = Some False"
    and "moveId = length (moves (games ! gameId))"
    and "points = pow2 (int (length (elems tiles)) - 3)"
    and "snd (makeMove rt gameId tiles games) =
           games[gameId := (games ! gameId)
                   \<lparr> moves := moves (games ! gameId) @ [elems tiles] \<rparr>]"
  using assms unfolding makeMove_cases by (auto split: if_splits)

lemma makeMove_not_made:
  assumes "\<forall>moveId points. fst (makeMove rt gameId tiles games) \<noteq> MoveMade moveId points"
  shows "snd (makeMove rt gameId tiles games) = games"
  using assms unfolding makeMove_cases by (auto split: if_splits)

lemma setGameDict_cases:
  "setGameDict gameId dictWrapper games =
     (if \<not> gameId < length games then (NotFound, games)
      else if dictIsValid dictWrapper = None then (ServerError, games)
      else if dictIsValid dictWrapper = Some False then (InvalidDictionary, games)
      else (DictionarySet,
            games[gameId := (games ! gameId)
              \<lparr> dict := Some (foldl (\<lambda>d word. assign d (toUpperCase (str word))) Map.empty
                                 (elems (the (field dictWrapper ''words'')))) \<rparr>]))"
  by (simp add: setGameDict_def Let_def split: option.splits)

lemma createGame_cases:
  "createGame boardWrapper games =
     (if boardIsValid boardWrapper = None then (ServerError, games)
      else if boardIsValid boardWrapper = Some False then (InvalidBoard, games)
      else (GameCreated (length games),
            games @ [\<lparr> dict = None,
                       board = map (\<lambda>char. toUpperCase (str char))
                                 (elems (the (field boardWrapper ''board''))),
                       moves = [] \<rparr>]))"
  by (simp add: createGame_def Let_def split: option.splits)

text \<open>
  The order of the checks, for a game identifier that is an index. The checks of a move
  submission run in the order game existence (NotFound), dictionary presence
  (DictionaryMissing), shape (MalformedMove), legality (DisallowedMove), repetition
  (DuplicateMove), and the first one that fails gives the answer, whatever the later ones
  would say. Attaching a dictionary at an index that holds no game is NotFound for
  every body, valid or not.
\<close>

theorem checks_in_order:
  "(\<not> gameId < length games \<longrightarrow> fst (makeMove rt gameId tiles games) = NotFound)
   \<and> (gameId < length games \<and> dict (games ! gameId) = None \<longrightarrow>
        fst (makeMove rt gameId tiles games) = DictionaryMissing)
   \<and> (gameId < length games \<and> dict (games ! gameId) \<noteq> None
        \<and> tilesAreValid rt tiles = Some False \<longrightarrow>
        fst (makeMove rt gameId tiles games) = MalformedMove)
   \<and> (gameId < length games \<and> dict (games ! gameId) \<noteq> None
        \<and> tilesAreValid rt tiles = Some True
        \<and> moveIsAllowed rt (elems tiles) (games ! gameId) = Some False \<longrightarrow>
        fst (makeMove rt gameId tiles games) = DisallowedMove)
   \<and> (gameId < length games \<and> dict (games ! gameId) \<noteq> None
        \<and> tilesAreValid rt tiles = Some True
        \<and> moveIsAllowed rt (elems tiles) (games ! gameId) = Some True
        \<and> moveExists rt (elems tiles) (games ! gameId) = Some True \<longrightarrow>
        fst (makeMove rt gameId tiles games) = DuplicateMove)
   \<and> (gameId < length games \<and> dict (games ! gameId) \<noteq> None
        \<and> tilesAreValid rt tiles = Some True
        \<and> moveIsAllowed rt (elems tiles) (games ! gameId) = Some True
        \<and> moveExists rt (elems tiles) (games ! gameId) = Some False \<longrightarrow>
        (\<exists>moveId points. fst (makeMove rt gameId tiles games) = MoveMade moveId points))
   \<and> (\<not> gameId < length games \<longrightarrow> fst (setGameDict gameId dictWrapper games) = NotFound)"
  unfolding makeMove_cases setGameDict_cases by simp

theorem checks_in_order_witness:
  "\<forall>rt. fst (makeMove rt 7 (JObj []) ready) = NotFound
      \<and> fst (makeMove rt 0 (JObj []) created) = DictionaryMissing
      \<and> fst (makeMove rt 0 (JArr [tile 0, tile 99]) ready) = MalformedMove
      \<and> fst (makeMove rt 0 (JArr (map tile [12, 15, 1, 4])) ready) = DisallowedMove
      \<and> fst (makeMove rt 0 (JArr (map tile [6, 1, 2])) (played rt)) = DuplicateMove
      \<and> fst (makeMove rt 0 (JArr (map tile [6, 1, 2])) ready) = MoveMade 0 1
      \<and> fst (setGameDict 0 (JObj []) ready) = InvalidDictionary
      \<and> fst (setGameDict 7 (JObj []) ready) = NotFound"
proof (intro allI conjI)
  fix rt
  show "fst (makeMove rt 7 (JObj []) ready) = NotFound"
    using checks_in_order [of 7 ready rt "JObj []"] by (simp add: ready_eq)
  show "fst (makeMove rt 0 (JObj []) created) = DictionaryMissing"
    using checks_in_order [of 0 created rt "JObj []"] by (simp add: created_eq)
  show "fst (makeMove rt 0 (JArr [tile 0, tile 99]) ready) = MalformedMove"
    using checks_in_order [of 0 ready rt "JArr [tile 0, tile 99]"]
    by (simp add: ready_eq evals)
  show "fst (makeMove rt 0 (JArr (map tile [12, 15, 1, 4])) ready) = DisallowedMove"
    using checks_in_order [of 0 ready rt "JArr (map tile [12, 15, 1, 4])"]
    by (simp add: ready_eq evals)
  show "fst (makeMove rt 0 (JArr (map tile [6, 1, 2])) (played rt)) = DuplicateMove"
    using checks_in_order [of 0 "played rt" rt "JArr (map tile [6, 1, 2])"]
    by (simp add: played_eq evals)
  show "fst (makeMove rt 0 (JArr (map tile [6, 1, 2])) ready) = MoveMade 0 1"
    using checks_in_order [of 0 ready rt "JArr (map tile [6, 1, 2])"]
    by (simp add: ready_eq evals)
  show "fst (setGameDict 0 (JObj []) ready) = InvalidDictionary"
    by (simp add: ready_eq evals)
  show "fst (setGameDict 7 (JObj []) ready) = NotFound"
    using checks_in_order [of 7 ready rt "JObj []" "JObj []"] by (simp add: ready_eq)
qed


section \<open>Failures change nothing\<close>

text \<open>
  Claim C8. No handler changes the games when it answers with an error. A move
  submission answered NotFound, DictionaryMissing, MalformedMove, DisallowedMove or
  DuplicateMove (or with the 500 of a thrown exception) leaves every game, with its
  board, dictionary and move history, as it was; a dictionary attach answered NotFound
  or InvalidDictionary leaves the games, so the former dictionary or its absence, as
  they were; and so does a game creation answered InvalidBoard.
\<close>

theorem failures_change_nothing:
  "(fst (makeMove rt gameId tiles games)
      \<in> {NotFound, DictionaryMissing, MalformedMove, DisallowedMove, DuplicateMove, ServerError}
      \<longrightarrow> snd (makeMove rt gameId tiles games) = games)
   \<and> (fst (setGameDict gameId dictWrapper games) \<in> {NotFound, InvalidDictionary, ServerError}
      \<longrightarrow> snd (setGameDict gameId dictWrapper games) = games)
   \<and> (fst (createGame boardWrapper games) \<in> {InvalidBoard, ServerError}
      \<longrightarrow> snd (createGame boardWrapper games) = games)"
proof (intro conjI impI)
  assume "fst (makeMove rt gameId tiles games)
            \<in> {NotFound, DictionaryMissing, MalformedMove, DisallowedMove, DuplicateMove,
               ServerError}"
  then have "\<forall>moveId points. fst (makeMove rt gameId tiles games) \<noteq> MoveMade moveId points"
    by auto
  then show "snd (makeMove rt gameId tiles games) = games"
    by (rule makeMove_not_made)
next
  assume "fst (setGameDict gameId dictWrapper games) \<in> {NotFound, InvalidDictionary, ServerError}"
  then show "snd (setGameDict gameId dictWrapper games) = games"
    unfolding setGameDict_cases by (auto split: if_splits)
next
  assume "fst (createGame boardWrapper games) \<in> {InvalidBoard, ServerError}"
  then show "snd (createGame boardWrapper games) = games"
    unfolding createGame_cases by (auto split: if_splits)
qed

theorem failures_change_nothing_witness:
  "\<forall>rt. (fst (makeMove rt 0 (JArr (map tile [6, 1, 2])) (played rt)) = DuplicateMove
          \<and> snd (makeMove rt 0 (JArr (map tile [6, 1, 2])) (played rt)) = played rt)
      \<and> (fst (makeMove rt 0 (JArr (map tile [12, 15, 1, 4])) (played rt)) = DisallowedMove
          \<and> snd (makeMove rt 0 (JArr (map tile [12, 15, 1, 4])) (played rt)) = played rt)
      \<and> (fst (setGameDict 0 (JObj [(''words'', JArr [JStr ''fab'', JNull])]) (played rt))
            = InvalidDictionary
          \<and> snd (setGameDict 0 (JObj [(''words'', JArr [JStr ''fab'', JNull])]) (played rt))
            = played rt)
      \<and> (fst (createGame (JObj [(''board'', JArr [JStr ''a''])]) (played rt)) = InvalidBoard
          \<and> snd (createGame (JObj [(''board'', JArr [JStr ''a''])]) (played rt)) = played rt)"
proof (intro allI conjI)
  fix rt
  show a: "fst (makeMove rt 0 (JArr (map tile [6, 1, 2])) (played rt)) = DuplicateMove"
    by (rule fab_again)
  show "snd (makeMove rt 0 (JArr (map tile [6, 1, 2])) (played rt)) = played rt"
    using failures_change_nothing [of rt 0 "JArr (map tile [6, 1, 2])" "played rt"] a
    by simp
  show b: "fst (makeMove rt 0 (JArr (map tile [12, 15, 1, 4])) (played rt)) = DisallowedMove"
    unfolding played_eq by (simp add: evals)
  show "snd (makeMove rt 0 (JArr (map tile [12, 15, 1, 4])) (played rt)) = played rt"
    using failures_change_nothing [of rt 0 "JArr (map tile [12, 15, 1, 4])" "played rt"] b
    by simp
  show c: "fst (setGameDict 0 (JObj [(''words'', JArr [JStr ''fab'', JNull])]) (played rt))
             = InvalidDictionary"
    unfolding played_eq by (simp add: evals)
  show "snd (setGameDict 0 (JObj [(''words'', JArr [JStr ''fab'', JNull])]) (played rt))
          = played rt"
    using failures_change_nothing
      [of rt 0 JNull "played rt" "JObj [(''words'', JArr [JStr ''fab'', JNull])]"] c
    by simp
  show d: "fst (createGame (JObj [(''board'', JArr [JStr ''a''])]) (played rt)) = InvalidBoard"
    by (simp add: evals)
  show "snd (createGame (JObj [(''board'', JArr [JStr ''a''])]) (played rt)) = played rt"
    using failures_change_nothing
      [of rt 0 JNull "played rt" JNull "JObj [(''board'', JArr [JStr ''a''])]"] d
    by simp
qed

section \<open>Points\<close>

lemma allowed_at_least_three: "moveIsAllowed rt ts game = Some True \<Longrightarrow> 3 \<le> length ts"
  by (simp add: moveIsAllowed_def split: if_splits)

lemma pow2_points: "3 \<le> n \<Longrightarrow> pow2 (int n - 3) = 2 ^ (n - 3)"
  by (simp add: pow2_def nat_diff_distrib')

lemma valid_is_array: "tilesAreValid rt tiles = Some True \<Longrightarrow> tiles = JArr (elems tiles)"
  by (cases tiles) (simp_all add: tilesAreValid_def Array_isArray_def elems_def)

text \<open>
  Claim C5. Every accepted move is answered with 2 to the power of the number of its
  tiles minus 3 as points; the move has at least 3 tiles, so the subtraction is the one
  of the integers. A move of 3 tiles scores 1, of 4 tiles 2, of 5 tiles 4, of 6 tiles 8.
\<close>

theorem points_are_power_of_two:
  assumes "fst (makeMove rt gameId tiles games) = MoveMade moveId points"
  shows "\<exists>ts. tiles = JArr ts \<and> 3 \<le> length ts \<and> points = 2 ^ (length ts - 3)
           \<and> (length ts = 3 \<longrightarrow> points = 1) \<and> (length ts = 4 \<longrightarrow> points = 2)
           \<and> (length ts = 5 \<longrightarrow> points = 4) \<and> (length ts = 6 \<longrightarrow> points = 8)"
proof -
  have arr: "tiles = JArr (elems tiles)"
    using makeMove_made(3) [OF assms] by (rule valid_is_array)
  have len: "3 \<le> length (elems tiles)"
    using makeMove_made(4) [OF assms] by (rule allowed_at_least_three)
  have "points = 2 ^ (length (elems tiles) - 3)"
    using makeMove_made(7) [OF assms] pow2_points [OF len] by simp
  with arr len show ?thesis by auto
qed

theorem points_are_power_of_two_witness:
  "\<forall>rt. fst (makeMove rt 0 (JArr (map tile [6, 1, 2])) ready) = MoveMade 0 1
      \<and> (\<exists>ts. JArr (map tile [6, 1, 2]) = JArr ts \<and> 3 \<le> length ts
             \<and> (1::rat) = 2 ^ (length ts - 3))"
proof (intro allI conjI)
  fix rt
  show made: "fst (makeMove rt 0 (JArr (map tile [6, 1, 2])) ready) = MoveMade 0 1"
    by (rule fab_made)
  show "\<exists>ts. JArr (map tile [6, 1, 2]) = JArr ts \<and> 3 \<le> length ts
          \<and> (1::rat) = 2 ^ (length ts - 3)"
    using points_are_power_of_two [OF made] by blast
qed


section \<open>Neighbors\<close>

lemma or_else_Some [simp]: "or_else (Some p) (Some q) = Some (p \<or> q)"
  by (simp add: or_else_def)

lemma strict_eq_numbers [simp]: "strict_eq (JNum (Fin x)) (JNum (Fin y)) = (x = y)"
  by (simp add: strict_eq_def)

lemma minus_number [simp]: "minus rt (JNum (Fin b)) k = Some (JNum (Fin (b - of_nat k)))"
  by (simp add: minus_def ToNumber_def num_add_def)

lemma plus_number [simp]: "plus rt (JNum (Fin b)) k = Some (JNum (Fin (b + of_nat k)))"
  by (simp add: plus_def ToNumber_def num_add_def)

lemma rat_offset: "((of_nat b :: rat) + of_int k = of_nat a) = (int b - int a = - k)"
proof -
  have "((of_nat b :: rat) + of_int k = of_nat a) = ((of_int (int b + k) :: rat) = of_int (int a))"
    by simp
  also have "\<dots> = (int b + k = int a)" by (simp only: of_int_eq_iff)
  also have "\<dots> = (int b - int a = - k)" by arith
  finally show ?thesis .
qed

text \<open>
  The tiles of a move are the numbers 1 to 16. The numbers that \<open>isConsecutiveNeighbor\<close>
  computes from them lie between -4 and 21, so its additions and subtractions are exact.
\<close>

lemma neighbor_of_numbers:
  assumes "0 < index" and "tiles ! (index - 1) = tile a"
    and "1 \<le> a \<and> a \<le> 16" and "1 \<le> b \<and> b \<le> 16"
  shows "isConsecutiveNeighbor rt (tile b) index tiles = Some (int b - int a \<in> offsets)"
proof -
  have m4: "((of_nat b :: rat) - 4 = of_nat a) = (int b - int a = 4)"
    using rat_offset [of b "- 4" a] by simp
  have p4: "((of_nat b :: rat) + 4 = of_nat a) = (int b - int a = - 4)"
    using rat_offset [of b 4 a] by simp
  have m1: "((of_nat b :: rat) - 1 = of_nat a) = (int b - int a = 1)"
    using rat_offset [of b "- 1" a] by simp
  have p1: "((of_nat b :: rat) + 1 = of_nat a) = (int b - int a = - 1)"
    using rat_offset [of b 1 a] by simp
  have m3: "((of_nat b :: rat) - 3 = of_nat a) = (int b - int a = 3)"
    using rat_offset [of b "- 3" a] by simp
  have p3: "((of_nat b :: rat) + 3 = of_nat a) = (int b - int a = - 3)"
    using rat_offset [of b 3 a] by simp
  have m5: "((of_nat b :: rat) - 5 = of_nat a) = (int b - int a = 5)"
    using rat_offset [of b "- 5" a] by simp
  have p5: "((of_nat b :: rat) + 5 = of_nat a) = (int b - int a = - 5)"
    using rat_offset [of b 5 a] by simp
  have "isConsecutiveNeighbor rt (tile b) index tiles =
      Some ((of_nat b :: rat) - 4 = of_nat a \<or> (of_nat b :: rat) + 4 = of_nat a
         \<or> (of_nat b :: rat) - 1 = of_nat a \<or> (of_nat b :: rat) + 1 = of_nat a
         \<or> (of_nat b :: rat) - 3 = of_nat a \<or> (of_nat b :: rat) + 3 = of_nat a
         \<or> (of_nat b :: rat) - 5 = of_nat a \<or> (of_nat b :: rat) + 5 = of_nat a)"
    using assms(1,2) by (simp add: isConsecutiveNeighbor_def Let_def tile_def)
  also have "\<dots> = Some (int b - int a \<in> offsets)"
    unfolding m4 p4 m1 p1 m3 p3 m5 p5 offsets_def by auto
  finally show ?thesis .
qed


lemma every_decided:
  "\<forall>x\<in>set xs. f x = Some (P x) \<Longrightarrow> every f xs = Some (\<forall>x\<in>set xs. P x)"
  by (induction xs) auto

lemma path_by_offsets:
  assumes "\<forall>k\<in>set ks. 1 \<le> k \<and> k \<le> 16"
  shows "allNeighbors rt (map tile ks) =
     Some (\<forall>i. 0 < i \<and> i < length ks \<longrightarrow> int (ks ! i) - int (ks ! (i - 1)) \<in> offsets)"
proof -
  have "\<forall>i\<in>set [0 ..< length (map tile ks)].
          isConsecutiveNeighbor rt (map tile ks ! i) i (map tile ks)
            = Some (i = 0 \<or> int (ks ! i) - int (ks ! (i - 1)) \<in> offsets)"
  proof
    fix i assume "i \<in> set [0 ..< length (map tile ks)]"
    then have i: "i < length ks" by simp
    show "isConsecutiveNeighbor rt (map tile ks ! i) i (map tile ks)
            = Some (i = 0 \<or> int (ks ! i) - int (ks ! (i - 1)) \<in> offsets)"
    proof (cases "i = 0")
      case True
      then show ?thesis by (simp add: isConsecutiveNeighbor_def)
    next
      case False
      then have "0 < i" and "map tile ks ! (i - 1) = tile (ks ! (i - 1))"
        using i by simp_all
      moreover have "1 \<le> ks ! (i - 1) \<and> ks ! (i - 1) \<le> 16" and "1 \<le> ks ! i \<and> ks ! i \<le> 16"
        using assms i by (simp_all add: less_imp_diff_less)
      ultimately have "isConsecutiveNeighbor rt (tile (ks ! i)) i (map tile ks)
          = Some (int (ks ! i) - int (ks ! (i - 1)) \<in> offsets)"
        by (rule neighbor_of_numbers)
      with i False show ?thesis
        by simp
    qed
  qed
  from every_decided [OF this]
  have "allNeighbors rt (map tile ks) =
      Some (\<forall>i\<in>set [0 ..< length (map tile ks)].
              i = 0 \<or> int (ks ! i) - int (ks ! (i - 1)) \<in> offsets)"
    unfolding allNeighbors_def .
  also have "(\<forall>i\<in>set [0 ..< length (map tile ks)].
              i = 0 \<or> int (ks ! i) - int (ks ! (i - 1)) \<in> offsets)
      = (\<forall>i. 0 < i \<and> i < length ks \<longrightarrow> int (ks ! i) - int (ks ! (i - 1)) \<in> offsets)"
    by (simp add: Ball_def) (metis not_gr_zero)
  finally show ?thesis .
qed

lemma fab_neighbors: "allNeighbors rt (map tile [6, 1, 2]) = Some True"
  by (simp add: allNeighbors_def isConsecutiveNeighbor_def tile_def upt_conv_Cons)

lemma load_not_neighbors: "allNeighbors rt (map tile [12, 15, 1, 4]) = Some False"
  by (simp add: allNeighbors_def isConsecutiveNeighbor_def tile_def upt_conv_Cons)

lemma tile_valid [simp]: "tileIsValid rt (tile k) = Some (1 \<le> k \<and> k \<le> 16)"
  by (simp add: tileIsValid_def tile_def ToNumber_def isNaN_def rem1_def trunc_def
      num_ge_def num_le_def)

lemma load_valid: "tilesAreValid rt (JArr (map tile [12, 15, 1, 4])) = Some True"
  by (simp add: tilesAreValid_def Array_isArray_def elems_def)

lemma fab_valid: "tilesAreValid rt (JArr (map tile [6, 1, 2])) = Some True"
  by (simp add: tilesAreValid_def Array_isArray_def elems_def)

lemma fab_word:
  "tilesToWord rt (map tile [6, 1, 2]) game =
     Some (toUpperCase (board_at (board game) (Fin 5) @ board_at (board game) (Fin 0)
                        @ board_at (board game) (Fin 1)))"
  by (simp add: tilesToWord_def tile_def ToNumber_def num_add_def)

lemma makeMove_disallowed:
  assumes "gameId < length games" and "dict (games ! gameId) \<noteq> None"
    and "tilesAreValid rt tiles = Some True"
    and "moveIsAllowed rt (elems tiles) (games ! gameId) = Some False"
  shows "fst (makeMove rt gameId tiles games) = DisallowedMove"
  using assms by (simp add: makeMove_cases)

lemma elems_JArr [simp]: "elems (JArr ts) = ts"
  by (simp add: elems_def)

section \<open>Creating a game\<close>

lemma single_character:
  "is_string x \<and> length (str x) = 1 \<longleftrightarrow> x = JStr [hd (str x)]"
proof (cases x)
  case (JStr s)
  then show ?thesis
    by (cases s) (auto simp: is_string_def str_def)
qed (simp_all add: is_string_def str_def)

lemma single_characters:
  "list_all (\<lambda>char. is_string char \<and> length (str char) = 1) xs
     \<longleftrightarrow> (\<exists>cs. xs = map (\<lambda>c. JStr [c]) cs)"
proof
  assume "list_all (\<lambda>char. is_string char \<and> length (str char) = 1) xs"
  then have "\<forall>x\<in>set xs. JStr [hd (str x)] = x"
    using single_character by (auto simp: list_all_iff)
  then have "map (\<lambda>x. JStr [hd (str x)]) xs = xs"
    by (simp add: map_idI)
  then have "xs = map (\<lambda>c. JStr [c]) (map (\<lambda>x. hd (str x)) xs)"
    by (simp add: comp_def)
  then show "\<exists>cs. xs = map (\<lambda>c. JStr [c]) cs" by (rule exI)
next
  assume "\<exists>cs. xs = map (\<lambda>c. JStr [c]) cs"
  then show "list_all (\<lambda>char. is_string char \<and> length (str char) = 1) xs"
    by (auto simp: list_all_iff is_string_def str_def)
qed

lemma boardIsValid_iff:
  "boardIsValid input = Some True \<longleftrightarrow> (\<exists>cs. sixteenCharacters input cs)"
proof
  assume valid: "boardIsValid input = Some True"
  then obtain b where b: "field input ''board'' = Some b"
    by (auto simp: boardIsValid_def split: if_splits option.splits)
  with valid have "Array_isArray b" and len: "length (elems b) = 16"
    and all: "list_all (\<lambda>char. is_string char \<and> length (str char) = 1) (elems b)"
    by (auto simp: boardIsValid_def split: if_splits)
  then have arr: "b = JArr (elems b)"
    by (cases b) (simp_all add: Array_isArray_def)
  from all obtain cs where cs: "elems b = map (\<lambda>c. JStr [c]) cs"
    unfolding single_characters by blast
  with len have "length cs = 16" by simp
  with b arr cs have "sixteenCharacters input cs"
    unfolding sixteenCharacters_def by simp
  then show "\<exists>cs. sixteenCharacters input cs" by blast
next
  assume "\<exists>cs. sixteenCharacters input cs"
  then obtain cs where f: "field input ''board'' = Some (JArr (map (\<lambda>c. JStr [c]) cs))"
    and len: "length cs = 16"
    unfolding sixteenCharacters_def by blast
  have "list_all (\<lambda>char. is_string char \<and> length (str char) = 1) (map (\<lambda>c. JStr [c]) cs)"
    unfolding single_characters by blast
  moreover from f have "input \<noteq> JNull" by (auto simp: field_def)
  ultimately show "boardIsValid input = Some True"
    using f len by (simp add: boardIsValid_def truthy_def Array_isArray_def)
qed

lemma boardIsValid_not_null: "input \<noteq> JNull \<Longrightarrow> boardIsValid input \<noteq> None"
  by (simp add: boardIsValid_def)

text \<open>
  Claim C6. createGame succeeds exactly when the body has a field \<^verbatim>\<open>board\<close> that
  holds a sequence of exactly 16 strings of length 1. It then answers with the next
  game identifier and stores, as a new game without dictionary or moves, the board
  whose letters are the upper case of the input's characters. Every other body (no such
  field, a value that is not a sequence, another length, an element that is not a
  string or not of length 1) is answered InvalidBoard and creates nothing. The body is
  what the JSON body parser hands over, an object or an array, so it is not null.
\<close>

theorem createGame_sixteen_characters:
  "((\<exists>gameId. fst (createGame input games) = GameCreated gameId)
      \<longleftrightarrow> (\<exists>cs. sixteenCharacters input cs))
   \<and> (sixteenCharacters input cs \<longrightarrow>
        createGame input games =
          (GameCreated (length games),
           games @ [\<lparr> dict = None, board = map (\<lambda>c. toUpperCase [c]) cs, moves = [] \<rparr>]))
   \<and> (input \<noteq> JNull \<and> \<not> (\<exists>cs. sixteenCharacters input cs) \<longrightarrow>
        createGame input games = (InvalidBoard, games))"
proof (intro conjI impI)
  show "(\<exists>gameId. fst (createGame input games) = GameCreated gameId)
      \<longleftrightarrow> (\<exists>cs. sixteenCharacters input cs)"
    unfolding boardIsValid_iff [symmetric] createGame_cases by auto
next
  assume sixteen: "sixteenCharacters input cs"
  then have "boardIsValid input = Some True"
    unfolding boardIsValid_iff by blast
  moreover from sixteen
  have "map (\<lambda>char. toUpperCase (str char)) (elems (the (field input ''board'')))
          = map (\<lambda>c. toUpperCase [c]) cs"
    by (simp add: sixteenCharacters_def str_def comp_def)
  ultimately show "createGame input games =
      (GameCreated (length games),
       games @ [\<lparr> dict = None, board = map (\<lambda>c. toUpperCase [c]) cs, moves = [] \<rparr>])"
    unfolding createGame_cases by simp
next
  assume "input \<noteq> JNull \<and> \<not> (\<exists>cs. sixteenCharacters input cs)"
  then have "boardIsValid input \<noteq> None" and "boardIsValid input \<noteq> Some True"
    unfolding boardIsValid_iff by (simp_all add: boardIsValid_not_null)
  then have "boardIsValid input = Some False" by (cases "boardIsValid input") auto
  then show "createGame input games = (InvalidBoard, games)"
    unfolding createGame_cases by simp
qed

theorem createGame_sixteen_characters_witness:
  "sixteenCharacters exampleBoard ''abcdefghijklmnop''
   \<and> createGame exampleBoard [] =
       (GameCreated 0,
        [\<lparr> dict = None, board = map (\<lambda>c. [c]) ''ABCDEFGHIJKLMNOP'', moves = [] \<rparr>])
   \<and> createGame (JObj [(''board'', JArr (map (\<lambda>c. JStr [c]) ''abcdefghijklmno''))]) created
       = (InvalidBoard, created)
   \<and> createGame (JObj [(''board'', JArr (map JStr (replicate 16 ''ab'')))]) created
       = (InvalidBoard, created)
   \<and> createGame (JObj []) created = (InvalidBoard, created)"
proof (intro conjI)
  show sixteen: "sixteenCharacters exampleBoard ''abcdefghijklmnop''"
    by (simp add: sixteenCharacters_def exampleBoard_def field_def)
  show "createGame exampleBoard [] =
       (GameCreated 0,
        [\<lparr> dict = None, board = map (\<lambda>c. [c]) ''ABCDEFGHIJKLMNOP'', moves = [] \<rparr>])"
    using createGame_sixteen_characters [of exampleBoard "[]" "''abcdefghijklmnop''"] sixteen
    by (simp add: toUpperCase_def upper_def lowerCase_def upperCase_def)
  have short: "\<not> (\<exists>cs. sixteenCharacters
                  (JObj [(''board'', JArr (map (\<lambda>c. JStr [c]) ''abcdefghijklmno''))]) cs)"
    by (auto simp: sixteenCharacters_def field_def dest: arg_cong [where f = length])
  show "createGame (JObj [(''board'', JArr (map (\<lambda>c. JStr [c]) ''abcdefghijklmno''))]) created
       = (InvalidBoard, created)"
    using createGame_sixteen_characters
      [of "JObj [(''board'', JArr (map (\<lambda>c. JStr [c]) ''abcdefghijklmno''))]" created] short
    by simp
  have long: "\<not> (\<exists>cs. sixteenCharacters
                  (JObj [(''board'', JArr (map JStr (replicate 16 ''ab'')))]) cs)"
    by (auto simp: sixteenCharacters_def field_def numeral_eq_Suc map_eq_Cons_conv)
  show "createGame (JObj [(''board'', JArr (map JStr (replicate 16 ''ab'')))]) created
       = (InvalidBoard, created)"
    using createGame_sixteen_characters
      [of "JObj [(''board'', JArr (map JStr (replicate 16 ''ab'')))]" created] long
    by simp
  have none: "\<not> (\<exists>cs. sixteenCharacters (JObj []) cs)"
    by (simp add: sixteenCharacters_def field_def)
  show "createGame (JObj []) created = (InvalidBoard, created)"
    using createGame_sixteen_characters [of "JObj []" created] none by simp
qed


section \<open>The move history\<close>

lemma history_createGame: "history (snd (createGame input games)) g = history games g"
  unfolding createGame_cases by (auto simp: history_def nth_append)

lemma history_setGameDict: "history (snd (setGameDict gameId input games)) g = history games g"
  unfolding setGameDict_cases by (auto simp: history_def nth_list_update)

lemma history_makeMove:
  "history (snd (makeMove rt gameId tiles games)) g =
     (if gameId = g \<and> (\<exists>moveId points. fst (makeMove rt gameId tiles games) = MoveMade moveId points)
      then history games g @ [elems tiles] else history games g)"
  unfolding makeMove_cases by (auto simp: history_def nth_list_update)

lemma moveId_is_length:
  "fst (makeMove rt gameId tiles games) = MoveMade moveId points
     \<Longrightarrow> moveId = length (history games gameId)"
  using makeMove_made(1,6) [of rt gameId tiles games moveId points]
  by (simp add: history_def)

lemma history_route:
  "history (snd (route rt req games)) g =
     (case accepted g req (fst (route rt req games)) of
        None \<Rightarrow> history games g
      | Some ts \<Rightarrow> history games g @ [ts])"
proof (cases req)
  case (PostGames body)
  then show ?thesis by (simp add: accepted_def history_createGame)
next
  case (PutDict gameId body)
  then show ?thesis by (simp add: accepted_def history_setGameDict)
next
  case (PostMoves gameId body)
  then show ?thesis
    by (cases "fst (makeMove rt gameId body games)")
       (auto simp: accepted_def history_makeMove)
qed

lemma moveIds_step:
  "moveIds g (req # reqs) (resp # resps) =
     (case accepted g req resp of
        None \<Rightarrow> moveIds g reqs resps
      | Some ts \<Rightarrow>
          (case resp of MoveMade moveId points \<Rightarrow> moveId # moveIds g reqs resps
                      | _ \<Rightarrow> moveIds g reqs resps))"
  by (cases req; cases resp) (simp_all add: accepted_def)

lemma accepted_moveId:
  assumes "accepted g req (fst (route rt req games)) = Some ts"
  shows "\<exists>points. fst (route rt req games) = MoveMade (length (history games g)) points"
proof (cases req)
  case (PostMoves gameId body)
  with assms obtain moveId points
    where made: "fst (makeMove rt gameId body games) = MoveMade moveId points" and "gameId = g"
    by (cases "fst (makeMove rt gameId body games)")
       (auto simp: accepted_def split: if_splits)
  with moveId_is_length [OF made] PostMoves show ?thesis by simp
qed (use assms in \<open>simp_all add: accepted_def\<close>)

lemma moveIds_serve:
  "serve rt reqs games = (resps, games')
     \<Longrightarrow> moveIds g reqs resps = [length (history games g) ..< length (history games' g)]
         \<and> length (history games g) \<le> length (history games' g)"
proof (induction reqs arbitrary: games resps)
  case Nil
  then show ?case by simp
next
  case (Cons req reqs)
  obtain resp games1 where first: "route rt req games = (resp, games1)"
    by (cases "route rt req games")
  obtain rest games2 where others: "serve rt reqs games1 = (rest, games2)"
    by (cases "serve rt reqs games1")
  from Cons.prems first others have resps: "resps = resp # rest" and final: "games' = games2"
    by simp_all
  from others final have "serve rt reqs games1 = (rest, games')" by simp
  note ih = Cons.IH [OF this]
  have hist: "history games1 g =
      (case accepted g req resp of None \<Rightarrow> history games g | Some ts \<Rightarrow> history games g @ [ts])"
    using history_route [of rt req games g] first by simp
  show ?case
  proof (cases "accepted g req resp")
    case None
    with hist ih resps show ?thesis
      by (simp add: moveIds_step)
  next
    case (Some ts)
    with accepted_moveId [of g req rt games ts] first
    obtain points where "resp = MoveMade (length (history games g)) points"
      by auto
    with Some hist ih resps show ?thesis
      by (simp add: moveIds_step upt_conv_Cons)
  qed
qed

text \<open>
  Claim C9. The identifier answered to an accepted move is the number of moves the game
  had; only an accepted move submission changes the move history of a game, and it
  appends that one move (every other exchange, rejected submissions included, leaves
  the history as it is). So, whatever requests are served, the identifiers answered to
  the accepted moves of a game are, in order, the numbers from the length the history
  had to the length it has; from the start of the process they are 0, 1, 2, ... with no
  gap and no reuse.
\<close>

theorem moveIds_count_up:
  "history (snd (route rt req games)) g =
     (case accepted g req (fst (route rt req games)) of
        None \<Rightarrow> history games g
      | Some ts \<Rightarrow> history games g @ [ts])
   \<and> (fst (makeMove rt g tiles games) = MoveMade moveId points \<longrightarrow>
        moveId = length (history games g))
   \<and> (serve rt reqs games = (resps, games') \<longrightarrow>
        moveIds g reqs resps = [length (history games g) ..< length (history games' g)])
   \<and> (serve rt reqs [] = (answers, final) \<longrightarrow>
        moveIds g reqs answers = [0 ..< length (history final g)])"
proof (intro conjI impI)
  show "history (snd (route rt req games)) g =
     (case accepted g req (fst (route rt req games)) of
        None \<Rightarrow> history games g
      | Some ts \<Rightarrow> history games g @ [ts])"
    by (rule history_route)
next
  assume "fst (makeMove rt g tiles games) = MoveMade moveId points"
  then show "moveId = length (history games g)" by (rule moveId_is_length)
next
  assume "serve rt reqs games = (resps, games')"
  then show "moveIds g reqs resps = [length (history games g) ..< length (history games' g)]"
    using moveIds_serve by blast
next
  assume "serve rt reqs [] = (answers, final)"
  then have "moveIds g reqs answers = [length (history [] g) ..< length (history final g)]"
    using moveIds_serve by blast
  then show "moveIds g reqs answers = [0 ..< length (history final g)]"
    by (simp add: history_def)
qed

lemma session_served:
  "serve rt session [] =
     ([GameCreated 0, DictionarySet, MoveMade 0 1, DuplicateMove, DisallowedMove,
       MoveMade 1 1, MalformedMove, MoveMade 2 1],
      [\<lparr>dict = Some [''FAB'' \<mapsto> True, ''LOAD'' \<mapsto> True, ''DEA'' \<mapsto> True, ''ABF'' \<mapsto> True,
                      ''PONMLKJIHGFABCDEA'' \<mapsto> True],
        board = map (\<lambda>c. [c]) ''ABCDEFGHIJKLMNOP'',
        moves = [map tile [6, 1, 2], map tile [1, 2, 6], map tile [4, 5, 1]]\<rparr>])"
  by (simp add: session_def evals)

theorem moveIds_count_up_witness:
  "\<forall>rt. fst (serve rt session []) =
           [GameCreated 0, DictionarySet, MoveMade 0 1, DuplicateMove, DisallowedMove,
            MoveMade 1 1, MalformedMove, MoveMade 2 1]
      \<and> history (snd (serve rt session [])) 0
           = [map tile [6, 1, 2], map tile [1, 2, 6], map tile [4, 5, 1]]
      \<and> moveIds 0 session (fst (serve rt session [])) = [0, 1, 2]"
proof (intro allI conjI)
  fix rt
  show "fst (serve rt session []) =
           [GameCreated 0, DictionarySet, MoveMade 0 1, DuplicateMove, DisallowedMove,
            MoveMade 1 1, MalformedMove, MoveMade 2 1]"
    by (simp add: session_served)
  show "history (snd (serve rt session [])) 0
           = [map tile [6, 1, 2], map tile [1, 2, 6], map tile [4, 5, 1]]"
    by (simp add: session_served history_def)
  then have three: "length (history (snd (serve rt session [])) 0) = 3"
    by simp
  have "moveIds 0 session (fst (serve rt session []))
          = [0 ..< length (history (snd (serve rt session [])) 0)]"
    using moveIds_count_up
      [where rt = rt and g = 0 and reqs = session and answers = "fst (serve rt session [])"
         and final = "snd (serve rt session [])"]
    by simp
  with three show "moveIds 0 session (fst (serve rt session [])) = [0, 1, 2]"
    by (simp add: upt_conv_Cons)
qed


section \<open>Tiles that pass tileIsValid\<close>

lemma trunc_of_int [simp]: "trunc (of_int i) = i"
  by (simp add: trunc_def)

lemma rem1_zero: "rem1 n = Fin 0 \<longleftrightarrow> (\<exists>i::int. n = Fin (of_int i))"
proof (cases n)
  case (Fin r)
  show ?thesis
  proof
    assume "rem1 n = Fin 0"
    with Fin have "r = of_int (trunc r)" by (simp add: rem1_def)
    with Fin show "\<exists>i::int. n = Fin (of_int i)" by blast
  next
    assume "\<exists>i::int. n = Fin (of_int i)"
    then show "rem1 n = Fin 0" by (auto simp: rem1_def)
  qed
qed (simp_all add: rem1_def)

lemma number_is_tile:
  "(\<not> isNaN n \<and> rem1 n = Fin 0 \<and> num_ge n 1 \<and> num_le n 16)
     \<longleftrightarrow> (\<exists>k::nat. 1 \<le> k \<and> k \<le> 16 \<and> n = Fin (of_nat k))"
proof
  assume ok: "\<not> isNaN n \<and> rem1 n = Fin 0 \<and> num_ge n 1 \<and> num_le n 16"
  then obtain i :: int where n: "n = Fin (of_int i)"
    unfolding rem1_zero by blast
  from ok n have "1 \<le> i" "i \<le> 16"
    by (simp_all add: num_ge_def num_le_def)
  then have "1 \<le> nat i \<and> nat i \<le> 16 \<and> n = Fin (of_nat (nat i))"
    using n by auto
  then show "\<exists>k::nat. 1 \<le> k \<and> k \<le> 16 \<and> n = Fin (of_nat k)" by blast
next
  assume "\<exists>k::nat. 1 \<le> k \<and> k \<le> 16 \<and> n = Fin (of_nat k)"
  then obtain k :: nat where k: "1 \<le> k" "k \<le> 16" "n = Fin (of_nat k)" by blast
  have "rem1 n = Fin 0" unfolding rem1_zero using k(3) by (metis of_int_of_nat_eq)
  with k show "\<not> isNaN n \<and> rem1 n = Fin 0 \<and> num_ge n 1 \<and> num_le n 16"
    by (simp add: isNaN_def num_ge_def num_le_def)
qed

lemma tileIsValid_True:
  "tileIsValid rt t = Some True \<longleftrightarrow>
     (\<exists>k::nat. 1 \<le> k \<and> k \<le> 16 \<and> ToNumber rt t = Some (Fin (of_nat k)))"
  unfolding tileIsValid_def number_is_tile by (cases "ToNumber rt t") auto

lemma tileIsValid_number:
  "tileIsValid rt (JNum n) = Some (\<exists>k::nat. 1 \<le> k \<and> k \<le> 16 \<and> n = Fin (of_nat k))"
  unfolding tileIsValid_def number_is_tile by (simp add: ToNumber_def)

lemma tileIsValid_null: "tileIsValid rt JNull = Some False"
  by (simp add: tileIsValid_def ToNumber_def num_ge_def)

lemma tileNumber_valid:
  assumes "tileIsValid rt t = Some True"
  shows "ToNumber rt t = Some (Fin (of_nat (tileNumber rt t)))"
    and "1 \<le> tileNumber rt t" and "tileNumber rt t \<le> 16"
proof -
  from assms obtain k :: nat where k: "1 \<le> k" "k \<le> 16" "ToNumber rt t = Some (Fin (of_nat k))"
    unfolding tileIsValid_True by blast
  then have "tileNumber rt t = k" by (simp add: tileNumber_def)
  with k show "ToNumber rt t = Some (Fin (of_nat (tileNumber rt t)))"
    and "1 \<le> tileNumber rt t" and "tileNumber rt t \<le> 16"
    by simp_all
qed

lemma every_True: "every f xs = Some True \<longleftrightarrow> (\<forall>x\<in>set xs. f x = Some True)"
  by (induction xs) (auto split: option.splits)

lemma every_no_throw:
  "\<forall>x\<in>set xs. f x \<noteq> None \<Longrightarrow> every f xs = Some (\<forall>x\<in>set xs. f x = Some True)"
  by (induction xs) (auto split: option.splits)

lemma map_throwing_Some:
  "\<forall>x\<in>set xs. f x = Some (h x) \<Longrightarrow> map_throwing f xs = Some (map h xs)"
  by (induction xs) auto

lemma tilesAreValid_True:
  "tilesAreValid rt tiles = Some True
     \<longleftrightarrow> (\<exists>ts. tiles = JArr ts \<and> (\<forall>t\<in>set ts. tileIsValid rt t = Some True))"
  by (cases tiles) (simp_all add: tilesAreValid_def Array_isArray_def every_True)

section \<open>The word of a path\<close>

lemma board_at_index:
  assumes "1 \<le> k" and "k \<le> length b"
  shows "board_at b (num_add (Fin (of_nat k)) (- 1)) = b ! (k - 1)"
proof -
  have "(of_nat k :: rat) + - 1 = of_nat (k - 1)"
    using assms(1) by simp
  moreover have "k - 1 < length b" using assms by simp
  ultimately show ?thesis
    by (simp add: board_at_def num_add_def del: of_nat_diff)
qed

lemma tilesToWord_valid:
  assumes "\<forall>t\<in>set ts. tileIsValid rt t = Some True" and "length (board game) = 16"
  shows "tilesToWord rt ts game = Some (derivedWord (board game) (map (tileNumber rt) ts))"
proof -
  have "\<forall>t\<in>set ts.
      map_option (\<lambda>n. board_at (board game) (num_add n (- 1))) (ToNumber rt t)
        = Some (board game ! (tileNumber rt t - 1))"
  proof
    fix t assume "t \<in> set ts"
    with assms(1) have valid: "tileIsValid rt t = Some True" by blast
    show "map_option (\<lambda>n. board_at (board game) (num_add n (- 1))) (ToNumber rt t)
        = Some (board game ! (tileNumber rt t - 1))"
      using tileNumber_valid [OF valid] assms(2) by (simp add: board_at_index)
  qed
  from map_throwing_Some [OF this] show ?thesis
    by (simp add: tilesToWord_def derivedWord_def comp_def)
qed

lemma tilesToWord_upper:
  "tilesToWord rt ts game = Some word \<Longrightarrow> \<exists>s. word = toUpperCase s"
  by (auto simp: tilesToWord_def)

lemma upper_not_lower: "upper c \<notin> set lowerCase"
proof (cases "c \<in> set lowerCase")
  case True
  then show ?thesis
    unfolding upper_def lowerCase_def upperCase_def by auto
next
  case False
  then have "map_of (zip lowerCase upperCase) c = None"
    unfolding lowerCase_def upperCase_def by auto
  with False show ?thesis by (simp add: upper_def)
qed

lemma toUpperCase_no_lower: "c \<in> set (toUpperCase s) \<Longrightarrow> c \<notin> set lowerCase"
  unfolding toUpperCase_def using upper_not_lower by auto

lemma prototype_has_lower:
  "w \<in> set Object_prototype \<Longrightarrow> CHR ''o'' \<in> set w \<or> CHR ''e'' \<in> set w"
  unfolding Object_prototype_def by (elim disjE | simp)+

lemma toUpperCase_not_inherited: "toUpperCase s \<notin> set Object_prototype"
proof
  assume "toUpperCase s \<in> set Object_prototype"
  then have "CHR ''o'' \<in> set (toUpperCase s) \<or> CHR ''e'' \<in> set (toUpperCase s)"
    by (rule prototype_has_lower)
  moreover have "CHR ''o'' \<in> set lowerCase" and "CHR ''e'' \<in> set lowerCase"
    by (simp_all add: lowerCase_def)
  ultimately show False
    using toUpperCase_no_lower by blast
qed

lemma lookup_upper: "lookup d (toUpperCase s) \<longleftrightarrow> d (toUpperCase s) = Some True"
  by (auto simp: lookup_def toUpperCase_not_inherited split: option.splits)

lemma assign_upper: "assign d (toUpperCase s) = d(toUpperCase s \<mapsto> True)"
proof -
  have "''__proto__'' \<in> set Object_prototype" by (simp add: Object_prototype_def)
  then have "toUpperCase s \<noteq> ''__proto__''"
    using toUpperCase_not_inherited by metis
  then show ?thesis by (simp add: assign_def)
qed


section \<open>Valid tiles never make a helper throw\<close>

lemma plus_no_throw: "ToNumber rt t = Some n \<Longrightarrow> \<exists>v. plus rt t k = Some v"
  by (cases t) (auto simp: plus_def ToNumber_def)

lemma minus_no_throw: "ToNumber rt t = Some n \<Longrightarrow> \<exists>v. minus rt t k = Some v"
  by (simp add: minus_def)

lemma isConsecutiveNeighbor_no_throw:
  assumes "ToNumber rt t = Some n"
  shows "\<exists>b. isConsecutiveNeighbor rt t index ts = Some b"
proof -
  have m: "minus rt t k = Some (JNum (num_add n (- of_nat k)))" for k
    using assms by (simp add: minus_def)
  obtain p4 where p4: "plus rt t 4 = Some p4"
    using plus_no_throw [OF assms] by blast
  obtain p1 where p1: "plus rt t 1 = Some p1"
    using plus_no_throw [OF assms] by blast
  obtain p3 where p3: "plus rt t 3 = Some p3"
    using plus_no_throw [OF assms] by blast
  obtain p5 where p5: "plus rt t 5 = Some p5"
    using plus_no_throw [OF assms] by blast
  show ?thesis
  proof (cases "index = 0")
    case True
    then have "isConsecutiveNeighbor rt t index ts = Some True"
      by (simp add: isConsecutiveNeighbor_def)
    then show ?thesis by blast
  next
    case False
    then have "isConsecutiveNeighbor rt t index ts =
        Some (strict_eq (JNum (num_add n (- 4))) (ts ! (index - 1))
              \<or> strict_eq p4 (ts ! (index - 1))
              \<or> strict_eq (JNum (num_add n (- 1))) (ts ! (index - 1))
              \<or> strict_eq p1 (ts ! (index - 1))
              \<or> strict_eq (JNum (num_add n (- 3))) (ts ! (index - 1))
              \<or> strict_eq p3 (ts ! (index - 1))
              \<or> strict_eq (JNum (num_add n (- 5))) (ts ! (index - 1))
              \<or> strict_eq p5 (ts ! (index - 1)))"
      unfolding isConsecutiveNeighbor_def Let_def m p4 p1 p3 p5 by simp
    then show ?thesis by blast
  qed
qed

lemma allNeighbors_no_throw:
  assumes "\<forall>t\<in>set ts. tileIsValid rt t = Some True"
  shows "\<exists>b. allNeighbors rt ts = Some b"
proof -
  have "\<forall>index\<in>set [0 ..< length ts].
          isConsecutiveNeighbor rt (ts ! index) index ts \<noteq> None"
  proof
    fix index assume "index \<in> set [0 ..< length ts]"
    then have "ts ! index \<in> set ts" by simp
    with assms obtain n where "ToNumber rt (ts ! index) = Some n"
      unfolding tileIsValid_True by blast
    from isConsecutiveNeighbor_no_throw [OF this]
    show "isConsecutiveNeighbor rt (ts ! index) index ts \<noteq> None" by simp
  qed
  from every_no_throw [OF this] show ?thesis
    unfolding allNeighbors_def by blast
qed

lemma moveIsAllowed_valid:
  assumes valid: "\<forall>t\<in>set ts. tileIsValid rt t = Some True"
    and board: "length (board game) = 16" and d: "dict game = Some d"
  shows "\<exists>neighbors. allNeighbors rt ts = Some neighbors
           \<and> moveIsAllowed rt ts game =
               Some (3 \<le> length ts \<and> neighbors \<and> length ts = Set_size ts
                     \<and> d (derivedWord (board game) (map (tileNumber rt) ts)) = Some True)"
proof -
  obtain neighbors where n: "allNeighbors rt ts = Some neighbors"
    using allNeighbors_no_throw [OF valid] by blast
  have w: "tilesToWord rt ts game = Some (derivedWord (board game) (map (tileNumber rt) ts))"
    using valid board by (rule tilesToWord_valid)
  have "lookup d (derivedWord (board game) (map (tileNumber rt) ts))
          \<longleftrightarrow> d (derivedWord (board game) (map (tileNumber rt) ts)) = Some True"
    unfolding derivedWord_def by (rule lookup_upper)
  then have "moveIsAllowed rt ts game =
               Some (3 \<le> length ts \<and> neighbors \<and> length ts = Set_size ts
                     \<and> d (derivedWord (board game) (map (tileNumber rt) ts)) = Some True)"
    unfolding moveIsAllowed_def n w d by simp
  with n show ?thesis by blast
qed

lemma moveExists_valid:
  assumes valid: "\<forall>t\<in>set ts. tileIsValid rt t = Some True"
    and wf: "wellFormed rt game"
  shows "moveExists rt ts game =
           Some (derivedWord (board game) (map (tileNumber rt) ts)
                 \<in> (\<lambda>move. derivedWord (board game) (map (tileNumber rt) move)) ` set (moves game))"
proof -
  from wf have board: "length (board game) = 16"
    and stored: "\<forall>move\<in>set (moves game). \<forall>t\<in>set move. tileIsValid rt t = Some True"
    by (simp_all add: wellFormed_def list_all_iff)
  have "\<forall>move\<in>set (moves game). tilesToWord rt move game
          = Some (derivedWord (board game) (map (tileNumber rt) move))"
    using stored board by (simp add: tilesToWord_valid)
  from map_throwing_Some [OF this]
  have "map_throwing (\<lambda>move. tilesToWord rt move game) (moves game)
          = Some (map (\<lambda>move. derivedWord (board game) (map (tileNumber rt) move)) (moves game))" .
  then show ?thesis
    unfolding moveExists_def tilesToWord_valid [OF valid board] by simp
qed


section \<open>Reachable states\<close>

lemma all_after_update:
  assumes "\<forall>x\<in>set xs. P x" and "P y"
  shows "\<forall>x\<in>set (xs[i := y]). P x"
proof
  fix x assume "x \<in> set (xs[i := y])"
  then have "x \<in> insert y (set xs)"
    using set_update_subset_insert [of xs i y] by blast
  with assms show "P x" by blast
qed

lemma createGame_wellFormed:
  assumes "\<forall>game\<in>set games. wellFormed rt game"
  shows "\<forall>game\<in>set (snd (createGame input games)). wellFormed rt game"
proof (cases "boardIsValid input = Some True")
  case True
  then obtain cs where "sixteenCharacters input cs"
    unfolding boardIsValid_iff by blast
  then have "length (elems (the (field input ''board''))) = 16"
    by (simp add: sixteenCharacters_def)
  with assms True show ?thesis
    unfolding createGame_cases by (simp add: wellFormed_def)
next
  case False
  with assms show ?thesis
    unfolding createGame_cases by (cases "boardIsValid input") auto
qed

lemma setGameDict_wellFormed:
  assumes "\<forall>game\<in>set games. wellFormed rt game"
  shows "\<forall>game\<in>set (snd (setGameDict gameId input games)). wellFormed rt game"
proof (cases "fst (setGameDict gameId input games) = DictionarySet")
  case True
  then have g: "gameId < length games"
    and "\<exists>x. snd (setGameDict gameId input games)
               = games[gameId := (games ! gameId)\<lparr>dict := x\<rparr>]"
    unfolding setGameDict_cases by (auto split: if_splits)
  then obtain x where after: "snd (setGameDict gameId input games)
               = games[gameId := (games ! gameId)\<lparr>dict := x\<rparr>]"
    by blast
  from g assms have "wellFormed rt (games ! gameId)" by simp
  then have "wellFormed rt ((games ! gameId)\<lparr>dict := x\<rparr>)"
    by (simp add: wellFormed_def)
  with assms show ?thesis
    unfolding after by (rule all_after_update)
next
  case False
  then have "snd (setGameDict gameId input games) = games"
    unfolding setGameDict_cases by (auto split: if_splits)
  with assms show ?thesis by simp
qed

lemma makeMove_wellFormed:
  assumes "\<forall>game\<in>set games. wellFormed rt game"
  shows "\<forall>game\<in>set (snd (makeMove rt gameId tiles games)). wellFormed rt game"
proof (cases "\<exists>moveId points. fst (makeMove rt gameId tiles games) = MoveMade moveId points")
  case True
  then obtain moveId points
    where made: "fst (makeMove rt gameId tiles games) = MoveMade moveId points" by blast
  note facts = makeMove_made [OF made]
  from facts(3) have valid: "\<forall>t\<in>set (elems tiles). tileIsValid rt t = Some True"
    unfolding tilesAreValid_True by auto
  from assms facts(1) have "wellFormed rt (games ! gameId)" by simp
  with valid
  have "wellFormed rt ((games ! gameId)\<lparr>moves := moves (games ! gameId) @ [elems tiles]\<rparr>)"
    by (simp add: wellFormed_def list_all_iff)
  with assms show ?thesis
    unfolding facts(8) by (rule all_after_update)
next
  case False
  then have "snd (makeMove rt gameId tiles games) = games"
    by (intro makeMove_not_made) blast
  with assms show ?thesis by simp
qed

lemma route_wellFormed:
  assumes "\<forall>game\<in>set games. wellFormed rt game"
  shows "\<forall>game\<in>set (snd (route rt req games)). wellFormed rt game"
proof (cases req)
  case (PostGames body)
  show ?thesis
    unfolding PostGames route.simps using assms by (rule createGame_wellFormed)
next
  case (PutDict gameId body)
  show ?thesis
    unfolding PutDict route.simps using assms by (rule setGameDict_wellFormed)
next
  case (PostMoves gameId body)
  show ?thesis
    unfolding PostMoves route.simps using assms by (rule makeMove_wellFormed)
qed

lemma reachable_wellFormed:
  "reachable rt games \<Longrightarrow> \<forall>game\<in>set games. wellFormed rt game"
proof (induction rule: reachable.induct)
  case start
  show ?case by simp
next
  case (step games req)
  then show ?case by (intro route_wellFormed)
qed

lemma serve_reachable:
  "reachable rt games \<Longrightarrow> reachable rt (snd (serve rt reqs games))"
proof (induction reqs arbitrary: games)
  case Nil
  then show ?case by simp
next
  case (Cons req reqs)
  from Cons.prems have "reachable rt (snd (route rt req games))"
    by (rule reachable.step)
  from Cons.IH [OF this] show ?case
    by (simp add: split_beta)
qed

lemma reachable_created: "reachable rt created"
  using reachable.step [OF reachable.start, of rt "PostGames exampleBoard"]
  by (simp add: created_def)

lemma reachable_ready: "reachable rt ready"
  using reachable.step [OF reachable_created, of rt "PutDict 0 exampleWords"]
  by (simp add: ready_def)

lemma reachable_played: "reachable rt (played rt)"
  using reachable.step [OF reachable_ready, of rt "PostMoves 0 (JArr (map tile [6, 1, 2]))"]
  by (simp add: played_def)


section \<open>The dictionary\<close>

lemma attach_words:
  "foldl (\<lambda>d word. assign d (toUpperCase (str word))) d0 (map JStr ws) =
     (\<lambda>w. if w \<in> toUpperCase ` set ws then Some True else d0 w)"
proof (induction ws arbitrary: d0)
  case Nil
  show ?case by simp
next
  case (Cons w ws)
  show ?case
    unfolding list.map foldl_Cons Cons.IH
    by (auto simp: assign_upper str_def fun_eq_iff)
qed

lemma all_strings: "list_all is_string xs \<longleftrightarrow> (\<exists>ws. xs = map JStr ws)"
proof
  assume "list_all is_string xs"
  then have "\<forall>x\<in>set xs. JStr (str x) = x"
    by (auto simp: list_all_iff is_string_def str_def split: jsval.splits)
  then have "map (\<lambda>x. JStr (str x)) xs = xs"
    by (simp add: map_idI)
  then have "xs = map JStr (map str xs)"
    by (simp add: comp_def)
  then show "\<exists>ws. xs = map JStr ws" by (rule exI)
next
  assume "\<exists>ws. xs = map JStr ws"
  then show "list_all is_string xs"
    by (auto simp: list_all_iff is_string_def)
qed

lemma dictIsValid_True:
  "dictIsValid input = Some True \<longleftrightarrow> (\<exists>ws. field input ''words'' = Some (JArr (map JStr ws)))"
proof
  assume valid: "dictIsValid input = Some True"
  then obtain v where v: "field input ''words'' = Some v"
    by (auto simp: dictIsValid_def split: if_splits option.splits)
  with valid have "Array_isArray v" and "list_all is_string (elems v)"
    by (auto simp: dictIsValid_def split: if_splits)
  then obtain ws where "v = JArr (map JStr ws)"
    unfolding all_strings by (cases v) (auto simp: Array_isArray_def)
  with v show "\<exists>ws. field input ''words'' = Some (JArr (map JStr ws))" by blast
next
  assume "\<exists>ws. field input ''words'' = Some (JArr (map JStr ws))"
  then obtain ws where f: "field input ''words'' = Some (JArr (map JStr ws))" by blast
  then have "input \<noteq> JNull" by (auto simp: field_def)
  moreover have "list_all is_string (map JStr ws)"
    unfolding all_strings by blast
  ultimately show "dictIsValid input = Some True"
    using f by (simp add: dictIsValid_def truthy_def Array_isArray_def)
qed

lemma setGameDict_attached:
  assumes "fst (setGameDict gameId input games) = DictionarySet"
  shows "\<exists>ws. field input ''words'' = Some (JArr (map JStr ws))
           \<and> dict (snd (setGameDict gameId input games) ! gameId)
               = Some (\<lambda>w. if w \<in> toUpperCase ` set ws then Some True else None)"
proof -
  from assms have g: "gameId < length games" and valid: "dictIsValid input = Some True"
    unfolding setGameDict_cases by (auto split: if_splits)
  from valid obtain ws where ws: "field input ''words'' = Some (JArr (map JStr ws))"
    unfolding dictIsValid_True by blast
  have "dict (snd (setGameDict gameId input games) ! gameId)
          = Some (\<lambda>w. if w \<in> toUpperCase ` set ws then Some True else None)"
    unfolding setGameDict_cases using g valid ws by (simp add: attach_words)
  with ws show ?thesis by blast
qed

text \<open>
  Claim C3. In a reachable state, a move that is accepted spells a word of the game's
  dictionary: the word is the upper case of the board's letters at the tiles of the
  path, in the order of the path, each tile counted from 1, and the dictionary holds
  it. A move that passes the shape check and whose word the dictionary does not hold is
  answered DisallowedMove and changes nothing, whatever its neighbors and repetitions
  are. The dictionary of a game is the upper case of the words last attached to it.
\<close>

theorem accepted_word_in_dictionary:
  assumes "reachable rt games"
  shows
    "(fst (makeMove rt gameId tiles games) = MoveMade moveId points \<longrightarrow>
        (\<exists>d ts. dict (games ! gameId) = Some d \<and> tiles = JArr ts
           \<and> tilesToWord rt ts (games ! gameId)
               = Some (derivedWord (board (games ! gameId)) (map (tileNumber rt) ts))
           \<and> d (derivedWord (board (games ! gameId)) (map (tileNumber rt) ts)) = Some True))
     \<and> (gameId < length games \<and> dict (games ! gameId) = Some d
          \<and> tilesAreValid rt tiles = Some True
          \<and> d (derivedWord (board (games ! gameId)) (map (tileNumber rt) (elems tiles)))
              \<noteq> Some True \<longrightarrow>
        makeMove rt gameId tiles games = (DisallowedMove, games))
     \<and> (fst (setGameDict gameId input games) = DictionarySet \<longrightarrow>
        (\<exists>ws. field input ''words'' = Some (JArr (map JStr ws))
           \<and> dict (snd (setGameDict gameId input games) ! gameId)
               = Some (\<lambda>w. if w \<in> toUpperCase ` set ws then Some True else None)))"
proof (intro conjI impI)
  assume made: "fst (makeMove rt gameId tiles games) = MoveMade moveId points"
  note facts = makeMove_made [OF made]
  from facts(2) obtain d where d: "dict (games ! gameId) = Some d" by blast
  from facts(3) obtain ts where ts: "tiles = JArr ts"
    and valid: "\<forall>t\<in>set ts. tileIsValid rt t = Some True"
    unfolding tilesAreValid_True by blast
  from reachable_wellFormed [OF assms] facts(1)
  have board: "length (board (games ! gameId)) = 16"
    by (simp add: wellFormed_def)
  from moveIsAllowed_valid [OF valid board d] facts(4) ts
  have "d (derivedWord (board (games ! gameId)) (map (tileNumber rt) ts)) = Some True"
    by auto
  with d ts tilesToWord_valid [OF valid board]
  show "\<exists>d ts. dict (games ! gameId) = Some d \<and> tiles = JArr ts
           \<and> tilesToWord rt ts (games ! gameId)
               = Some (derivedWord (board (games ! gameId)) (map (tileNumber rt) ts))
           \<and> d (derivedWord (board (games ! gameId)) (map (tileNumber rt) ts)) = Some True"
    by blast
next
  assume a: "gameId < length games \<and> dict (games ! gameId) = Some d
          \<and> tilesAreValid rt tiles = Some True
          \<and> d (derivedWord (board (games ! gameId)) (map (tileNumber rt) (elems tiles)))
              \<noteq> Some True"
  then obtain ts where ts: "tiles = JArr ts"
    and valid: "\<forall>t\<in>set ts. tileIsValid rt t = Some True"
    unfolding tilesAreValid_True by blast
  from reachable_wellFormed [OF assms] a
  have board: "length (board (games ! gameId)) = 16"
    by (simp add: wellFormed_def)
  from a have d: "dict (games ! gameId) = Some d" by blast
  from moveIsAllowed_valid [OF valid board d] a ts
  have "moveIsAllowed rt (elems tiles) (games ! gameId) = Some False"
    by auto
  with a show "makeMove rt gameId tiles games = (DisallowedMove, games)"
    unfolding makeMove_cases by simp
next
  assume "fst (setGameDict gameId input games) = DictionarySet"
  then show "\<exists>ws. field input ''words'' = Some (JArr (map JStr ws))
           \<and> dict (snd (setGameDict gameId input games) ! gameId)
               = Some (\<lambda>w. if w \<in> toUpperCase ` set ws then Some True else None)"
    by (rule setGameDict_attached)
qed

lemma abc_valid: "tilesAreValid rt (JArr (map tile [1, 2, 3])) = Some True"
  by (simp add: tilesAreValid_def Array_isArray_def)

lemma tileNumber_tile [simp]: "tileNumber rt (tile k) = k"
  by (simp add: tileNumber_def tile_def ToNumber_def)

theorem accepted_word_in_dictionary_witness:
  "\<forall>rt. reachable rt ready
      \<and> fst (makeMove rt 0 (JArr (map tile [6, 1, 2])) ready) = MoveMade 0 1
      \<and> tilesToWord rt (map tile [6, 1, 2]) (ready ! 0) = Some ''FAB''
      \<and> the (dict (ready ! 0)) ''FAB'' = Some True
      \<and> tilesToWord rt (map tile [1, 2, 3]) (ready ! 0) = Some ''ABC''
      \<and> the (dict (ready ! 0)) ''ABC'' = None
      \<and> makeMove rt 0 (JArr (map tile [1, 2, 3])) ready = (DisallowedMove, ready)
      \<and> fst (setGameDict 0 exampleWords created) = DictionarySet"
proof (intro allI conjI)
  fix rt
  show r: "reachable rt ready" by (rule reachable_ready)
  show made: "fst (makeMove rt 0 (JArr (map tile [6, 1, 2])) ready) = MoveMade 0 1"
    by (rule fab_made)
  have fab: "derivedWord (board (ready ! 0)) (map (tileNumber rt) (map tile [6, 1, 2])) = ''FAB''"
    by (simp add: ready_eq derivedWord_def toUpperCase_def upper_def lowerCase_def
        upperCase_def)
  from accepted_word_in_dictionary [OF r, of 0 "JArr (map tile [6, 1, 2])" 0 1] made
  have "\<exists>d. dict (ready ! 0) = Some d
          \<and> tilesToWord rt (map tile [6, 1, 2]) (ready ! 0) = Some ''FAB''
          \<and> d ''FAB'' = Some True"
    unfolding fab [symmetric] by blast
  then show "tilesToWord rt (map tile [6, 1, 2]) (ready ! 0) = Some ''FAB''"
    and "the (dict (ready ! 0)) ''FAB'' = Some True"
    by auto
  show "tilesToWord rt (map tile [1, 2, 3]) (ready ! 0) = Some ''ABC''"
    by (simp add: ready_eq evals)
  show none: "the (dict (ready ! 0)) ''ABC'' = None"
    by (simp add: ready_eq)
  have abc: "derivedWord (board (ready ! 0))
               (map (tileNumber rt) (elems (JArr (map tile [1, 2, 3])))) = ''ABC''"
    by (simp add: ready_eq derivedWord_def toUpperCase_def upper_def lowerCase_def
        upperCase_def)
  have d: "dict (ready ! 0) = Some (the (dict (ready ! 0)))"
    by (simp add: ready_eq)
  from accepted_word_in_dictionary
    [OF r, of 0 "JArr (map tile [1, 2, 3])" _ _ "the (dict (ready ! 0))"]
    abc_valid [of rt] none d
  show "makeMove rt 0 (JArr (map tile [1, 2, 3])) ready = (DisallowedMove, ready)"
    unfolding abc by (simp add: ready_eq)
  show "fst (setGameDict 0 exampleWords created) = DictionarySet"
    by (simp add: created_eq evals)
qed


section \<open>Words already played\<close>

lemma board_createGame:
  "g < length games \<Longrightarrow> board (snd (createGame input games) ! g) = board (games ! g)"
  unfolding createGame_cases by (simp add: nth_append)

lemma board_setGameDict:
  "g < length games \<Longrightarrow> board (snd (setGameDict gameId input games) ! g) = board (games ! g)"
  unfolding setGameDict_cases by (simp add: nth_list_update)

lemma board_makeMove:
  "g < length games \<Longrightarrow> board (snd (makeMove rt gameId tiles games) ! g) = board (games ! g)"
  unfolding makeMove_cases by (simp add: nth_list_update)

lemma length_route: "length games \<le> length (snd (route rt req games))"
proof (cases req)
  case (PostGames body)
  show ?thesis unfolding PostGames route.simps createGame_cases by simp
next
  case (PutDict gameId body)
  show ?thesis unfolding PutDict route.simps setGameDict_cases by simp
next
  case (PostMoves gameId body)
  show ?thesis unfolding PostMoves route.simps makeMove_cases by simp
qed

lemma board_route:
  assumes "g < length games"
  shows "board (snd (route rt req games) ! g) = board (games ! g)"
proof (cases req)
  case (PostGames body)
  show ?thesis unfolding PostGames route.simps using assms by (rule board_createGame)
next
  case (PutDict gameId body)
  show ?thesis unfolding PutDict route.simps using assms by (rule board_setGameDict)
next
  case (PostMoves gameId body)
  show ?thesis unfolding PostMoves route.simps using assms by (rule board_makeMove)
qed

lemma history_grows_route: "\<exists>more. history (snd (route rt req games)) g = history games g @ more"
  unfolding history_route by (cases "accepted g req (fst (route rt req games))") simp_all

lemma serve_keeps:
  assumes "g < length games"
  shows "g < length (snd (serve rt reqs games))
         \<and> board (snd (serve rt reqs games) ! g) = board (games ! g)
         \<and> (\<exists>more. history (snd (serve rt reqs games)) g = history games g @ more)"
  using assms
proof (induction reqs arbitrary: games)
  case Nil
  then show ?case by simp
next
  case (Cons req reqs)
  let ?next = "snd (route rt req games)"
  have len: "g < length ?next"
    using Cons.prems length_route [of games rt req] by simp
  have b: "board (?next ! g) = board (games ! g)"
    using Cons.prems by (rule board_route)
  obtain first where h: "history ?next g = history games g @ first"
    using history_grows_route by blast
  from Cons.IH [OF len] obtain more
    where "g < length (snd (serve rt reqs ?next))"
      and "board (snd (serve rt reqs ?next) ! g) = board (?next ! g)"
      and "history (snd (serve rt reqs ?next)) g = history ?next g @ more"
    by blast
  with b h have "g < length (snd (serve rt reqs ?next))
      \<and> board (snd (serve rt reqs ?next) ! g) = board (games ! g)
      \<and> history (snd (serve rt reqs ?next)) g = history games g @ (first @ more)"
    by simp
  then show ?case
    by (simp add: split_beta)
qed

text \<open>
  Claim C4. Once a move that spells the word W has been accepted in a game, then after
  any further requests no submission to that game whose tiles spell W is accepted, be
  it the same path or another one; a submission that passes the checks of shape,
  neighbors, uniqueness and dictionary is answered DuplicateMove and changes nothing.
  (A submission that fails one of those checks gets that check's answer, as the order
  of the checks has it.)
\<close>

theorem word_played_once:
  assumes "reachable rt games"
    and "fst (makeMove rt g tiles games) = MoveMade moveId points"
    and "serve rt reqs (snd (makeMove rt g tiles games)) = (resps, games')"
    and "tilesToWord rt (elems tiles') (games' ! g) = tilesToWord rt (elems tiles) (games ! g)"
  shows "(\<forall>moveId' points'. fst (makeMove rt g tiles' games') \<noteq> MoveMade moveId' points')
         \<and> (tilesAreValid rt tiles' = Some True
              \<and> moveIsAllowed rt (elems tiles') (games' ! g) = Some True \<longrightarrow>
            makeMove rt g tiles' games' = (DuplicateMove, games'))"
proof -
  let ?made = "snd (makeMove rt g tiles games)"
  note facts = makeMove_made [OF assms(2)]
  have g: "g < length games" by (rule facts(1))
  have valid: "\<forall>t\<in>set (elems tiles). tileIsValid rt t = Some True"
    using facts(3) unfolding tilesAreValid_True by auto
  have board: "length (board (games ! g)) = 16"
    using reachable_wellFormed [OF assms(1)] g by (simp add: wellFormed_def)
  have word: "tilesToWord rt (elems tiles) (games ! g)
      = Some (derivedWord (board (games ! g)) (map (tileNumber rt) (elems tiles)))"
    using valid board by (rule tilesToWord_valid)
  have "reachable rt ?made"
    using reachable.step [OF assms(1), of "PostMoves g tiles"] by simp
  then have "reachable rt (snd (serve rt reqs ?made))"
    by (rule serve_reachable)
  then have reach: "reachable rt games'"
    using assms(3) by simp
  have g1: "g < length ?made"
    using g unfolding facts(8) by simp
  have b1: "board (?made ! g) = board (games ! g)"
    using g by (rule board_makeMove)
  have h1: "history ?made g = history games g @ [elems tiles]"
    using assms(2) by (simp add: history_makeMove)
  from serve_keeps [OF g1, of rt reqs] assms(3) obtain more
    where g': "g < length games'"
      and b': "board (games' ! g) = board (?made ! g)"
      and h': "history games' g = history ?made g @ more"
    by auto
  from h' h1 g' have stored: "elems tiles \<in> set (moves (games' ! g))"
    by (simp add: history_def)
  have wf: "wellFormed rt (games' ! g)"
    using reachable_wellFormed [OF reach] g' by simp
  have same_board: "board (games' ! g) = board (games ! g)"
    using b' b1 by simp
  have again: "moveExists rt (elems tiles') (games' ! g) = Some True"
    if ok: "tilesAreValid rt tiles' = Some True"
  proof -
    from ok have valid': "\<forall>t\<in>set (elems tiles'). tileIsValid rt t = Some True"
      unfolding tilesAreValid_True by auto
    have "length (board (games' ! g)) = 16"
      using board same_board by simp
    from tilesToWord_valid [OF valid' this] assms(4) word
    have "derivedWord (board (games' ! g)) (map (tileNumber rt) (elems tiles'))
        = derivedWord (board (games' ! g)) (map (tileNumber rt) (elems tiles))"
      unfolding same_board by simp
    with stored show ?thesis
      unfolding moveExists_valid [OF valid' wf] by auto
  qed
  have never: "fst (makeMove rt g tiles' games') \<noteq> MoveMade moveId' points'"
    for moveId' points'
  proof
    assume m: "fst (makeMove rt g tiles' games') = MoveMade moveId' points'"
    from makeMove_made(3) [OF m] have "moveExists rt (elems tiles') (games' ! g) = Some True"
      by (rule again)
    with makeMove_made(5) [OF m] show False by simp
  qed
  have dup: "makeMove rt g tiles' games' = (DuplicateMove, games')"
    if "tilesAreValid rt tiles' = Some True"
      and "moveIsAllowed rt (elems tiles') (games' ! g) = Some True"
  proof -
    have d: "dict (games' ! g) \<noteq> None"
      using that(2) by (auto simp: moveIsAllowed_def split: if_splits option.splits)
    show ?thesis
      unfolding makeMove_cases using g' d that again [OF that(1)] by simp
  qed
  from never dup show ?thesis by blast
qed

lemma echo_eq:
  "echo = [\<lparr>dict = Some [''ABA'' \<mapsto> True],
            board = map (\<lambda>c. [c]) ''ABABABABABABABAB'', moves = []\<rparr>]"
  by (simp add: echo_def echoBoard_def evals)

lemma reachable_echo: "reachable rt echo"
proof -
  have "reachable rt (snd (route rt (PostGames echoBoard) []))"
    using reachable.start by (rule reachable.step)
  then have "reachable rt (snd (route rt (PutDict 0 (JObj [(''words'', JArr [JStr ''aba''])]))
                                 (snd (route rt (PostGames echoBoard) []))))"
    by (rule reachable.step)
  then show ?thesis by (simp add: echo_def)
qed

theorem word_played_once_witness:
  "\<forall>rt. reachable rt echo
      \<and> fst (makeMove rt 0 (JArr (map tile [1, 2, 3])) echo) = MoveMade 0 1
      \<and> fst (serve rt [PostMoves 0 (JArr (map tile [12, 15, 1, 4]))]
                (snd (makeMove rt 0 (JArr (map tile [1, 2, 3])) echo))) = [DisallowedMove]
      \<and> fst (makeMove rt 0 (JArr (map tile [3, 2, 1]))
               (snd (serve rt [PostMoves 0 (JArr (map tile [12, 15, 1, 4]))]
                      (snd (makeMove rt 0 (JArr (map tile [1, 2, 3])) echo)))))
          = DuplicateMove
      \<and> fst (makeMove rt 0 (JArr (map tile [1, 2, 3]))
               (snd (serve rt [PostMoves 0 (JArr (map tile [12, 15, 1, 4]))]
                      (snd (makeMove rt 0 (JArr (map tile [1, 2, 3])) echo)))))
          = DuplicateMove"
proof (intro allI conjI)
  fix rt
  let ?first = "JArr (map tile [1, 2, 3])"
  let ?reqs = "[PostMoves 0 (JArr (map tile [12, 15, 1, 4]))]"
  let ?after = "snd (serve rt ?reqs (snd (makeMove rt 0 ?first echo)))"
  show r: "reachable rt echo" by (rule reachable_echo)
  show made: "fst (makeMove rt 0 ?first echo) = MoveMade 0 1"
    unfolding echo_eq by (simp add: evals)
  have after: "serve rt ?reqs (snd (makeMove rt 0 ?first echo)) =
      ([DisallowedMove],
       [\<lparr>dict = Some [''ABA'' \<mapsto> True], board = map (\<lambda>c. [c]) ''ABABABABABABABAB'',
         moves = [map tile [1, 2, 3]]\<rparr>])"
    unfolding echo_eq by (simp add: evals)
  then show "fst (serve rt ?reqs (snd (makeMove rt 0 ?first echo))) = [DisallowedMove]"
    by simp
  have later: "serve rt ?reqs (snd (makeMove rt 0 ?first echo)) = ([DisallowedMove], ?after)"
    using after by simp
  have other: "tilesToWord rt (elems (JArr (map tile [3, 2, 1]))) (?after ! 0)
        = tilesToWord rt (elems ?first) (echo ! 0)"
    unfolding after echo_eq by (simp add: evals)
  have other_ok: "tilesAreValid rt (JArr (map tile [3, 2, 1])) = Some True
      \<and> moveIsAllowed rt (elems (JArr (map tile [3, 2, 1]))) (?after ! 0) = Some True"
    unfolding after by (simp add: evals)
  from word_played_once [OF r made later other] other_ok
  show "fst (makeMove rt 0 (JArr (map tile [3, 2, 1])) ?after) = DuplicateMove"
    by simp
  have same: "tilesToWord rt (elems ?first) (?after ! 0) = tilesToWord rt (elems ?first) (echo ! 0)"
    unfolding after echo_eq by (simp add: evals)
  have same_ok: "tilesAreValid rt ?first = Some True
      \<and> moveIsAllowed rt (elems ?first) (?after ! 0) = Some True"
    unfolding after by (simp add: evals)
  from word_played_once [OF r made later same] same_ok
  show "fst (makeMove rt 0 ?first ?after) = DuplicateMove"
    by simp
qed


section \<open>The shape check\<close>

lemma makeMove_malformed:
  assumes "gameId < length games" and "dict (games ! gameId) \<noteq> None"
    and "tilesAreValid rt tiles = Some False"
  shows "makeMove rt gameId tiles games = (MalformedMove, games)"
  using assms by (simp add: makeMove_cases)

lemma short_move_disallowed:
  assumes "gameId < length games" and "dict (games ! gameId) \<noteq> None"
    and "\<forall>t\<in>set ts. tileIsValid rt t = Some True" and "length ts < 3"
  shows "makeMove rt gameId (JArr ts) games = (DisallowedMove, games)"
proof -
  have "tilesAreValid rt (JArr ts) = Some True"
    unfolding tilesAreValid_True using assms(3) by blast
  moreover have "moveIsAllowed rt (elems (JArr ts)) (games ! gameId) = Some False"
    using assms(4) by (simp add: moveIsAllowed_def)
  ultimately show ?thesis
    using assms(1,2) by (simp add: makeMove_cases)
qed

text \<open>
  Claim C1, as the code has it. In a game that exists and has a dictionary, a tiles
  value that is not a sequence is answered MalformedMove, and so is a sequence with an
  element that fails the tile test when no element makes the test throw; every number
  that is not an integer from 1 to 16 fails the test, so every sequence of numbers with
  such a number is answered MalformedMove. The length is no part of the shape check: a
  sequence of fewer than 3 values that all pass the tile test passes it, and is
  then answered DisallowedMove by the rules of the game, which ask for 3 tiles.
\<close>

theorem shape_check_without_length:
  assumes "gameId < length games" and "dict (games ! gameId) \<noteq> None"
  shows
    "(\<not> Array_isArray tiles \<longrightarrow> makeMove rt gameId tiles games = (MalformedMove, games))
     \<and> (tiles = JArr ts \<and> (\<exists>t\<in>set ts. tileIsValid rt t = Some False)
          \<and> (\<forall>t\<in>set ts. tileIsValid rt t \<noteq> None) \<longrightarrow>
        makeMove rt gameId tiles games = (MalformedMove, games))
     \<and> (tiles = JArr (map JNum ns)
          \<and> (\<exists>n\<in>set ns. \<not> (\<exists>k::nat. 1 \<le> k \<and> k \<le> 16 \<and> n = Fin (of_nat k))) \<longrightarrow>
        makeMove rt gameId tiles games = (MalformedMove, games))
     \<and> (tiles = JArr ts \<and> (\<forall>t\<in>set ts. tileIsValid rt t = Some True) \<and> length ts < 3 \<longrightarrow>
        makeMove rt gameId tiles games = (DisallowedMove, games))"
proof (intro conjI impI)
  assume "\<not> Array_isArray tiles"
  then have "tilesAreValid rt tiles = Some False"
    by (simp add: tilesAreValid_def)
  with assms show "makeMove rt gameId tiles games = (MalformedMove, games)"
    by (rule makeMove_malformed)
next
  assume a: "tiles = JArr ts \<and> (\<exists>t\<in>set ts. tileIsValid rt t = Some False)
          \<and> (\<forall>t\<in>set ts. tileIsValid rt t \<noteq> None)"
  then have "every (tileIsValid rt) ts = Some (\<forall>t\<in>set ts. tileIsValid rt t = Some True)"
    by (intro every_no_throw) blast
  moreover from a obtain t where "t \<in> set ts" and "tileIsValid rt t = Some False"
    by blast
  then have "\<not> (\<forall>t\<in>set ts. tileIsValid rt t = Some True)"
    by force
  ultimately have "tilesAreValid rt tiles = Some False"
    using a by (simp add: tilesAreValid_def Array_isArray_def)
  with assms show "makeMove rt gameId tiles games = (MalformedMove, games)"
    by (rule makeMove_malformed)
next
  assume a: "tiles = JArr (map JNum ns)
          \<and> (\<exists>n\<in>set ns. \<not> (\<exists>k::nat. 1 \<le> k \<and> k \<le> 16 \<and> n = Fin (of_nat k)))"
  have "\<forall>t\<in>set (map JNum ns). tileIsValid rt t \<noteq> None"
    by (auto simp: tileIsValid_number)
  then have "every (tileIsValid rt) (map JNum ns)
      = Some (\<forall>t\<in>set (map JNum ns). tileIsValid rt t = Some True)"
    by (rule every_no_throw)
  moreover from a have "\<not> (\<forall>t\<in>set (map JNum ns). tileIsValid rt t = Some True)"
    by (auto simp: tileIsValid_number)
  ultimately have "tilesAreValid rt tiles = Some False"
    using a by (simp add: tilesAreValid_def Array_isArray_def)
  with assms show "makeMove rt gameId tiles games = (MalformedMove, games)"
    by (rule makeMove_malformed)
next
  assume "tiles = JArr ts \<and> (\<forall>t\<in>set ts. tileIsValid rt t = Some True) \<and> length ts < 3"
  with assms show "makeMove rt gameId tiles games = (DisallowedMove, games)"
    by (simp add: short_move_disallowed)
qed

lemma ready_has_dictionary: "0 < length ready \<and> dict (ready ! 0) \<noteq> None"
  by (simp add: ready_eq)

theorem shape_check_without_length_witness:
  "\<forall>rt. 0 < length ready \<and> dict (ready ! 0) \<noteq> None
      \<and> makeMove rt 0 (JObj []) ready = (MalformedMove, ready)
      \<and> makeMove rt 0 (JObj [(''tiles'', JArr (map tile [6, 1, 2]))]) ready
          = (MalformedMove, ready)
      \<and> makeMove rt 0 (JArr [tile 6, JNull, tile 2]) ready = (MalformedMove, ready)
      \<and> makeMove rt 0 (JArr (map JNum [Fin 6, Fin (3 / 2), Fin 2])) ready
          = (MalformedMove, ready)
      \<and> makeMove rt 0 (JArr (map JNum [Fin 6, Fin 1, Fin 17])) ready = (MalformedMove, ready)
      \<and> makeMove rt 0 (JArr (map JNum [Fin 0, Fin 1])) ready = (MalformedMove, ready)
      \<and> makeMove rt 0 (JArr (map JNum [PInf, Fin 1, Fin 2])) ready = (MalformedMove, ready)
      \<and> makeMove rt 0 (JArr [tile 1, tile 2]) ready = (DisallowedMove, ready)
      \<and> makeMove rt 0 (JArr []) ready = (DisallowedMove, ready)"
proof (intro allI conjI)
  fix rt
  note game = ready_has_dictionary [THEN conjunct1] ready_has_dictionary [THEN conjunct2]
  show "0 < length ready" and "dict (ready ! 0) \<noteq> None"
    using game by simp_all
  show "makeMove rt 0 (JObj []) ready = (MalformedMove, ready)"
    using shape_check_without_length [OF game, where tiles = "JObj []" and rt = rt]
    by (simp add: Array_isArray_def)
  show "makeMove rt 0 (JObj [(''tiles'', JArr (map tile [6, 1, 2]))]) ready
          = (MalformedMove, ready)"
    using shape_check_without_length [OF game, where tiles = "JObj [(''tiles'', JArr (map tile [6, 1, 2]))]" and rt = rt]
    by (simp add: Array_isArray_def)
  show "makeMove rt 0 (JArr [tile 6, JNull, tile 2]) ready = (MalformedMove, ready)"
    using shape_check_without_length
      [OF game, where tiles = "JArr [tile 6, JNull, tile 2]"
         and ts = "[tile 6, JNull, tile 2]" and rt = rt]
    by (auto simp: tileIsValid_null)
  have nat_tile: "(\<exists>k::nat. 1 \<le> k \<and> k \<le> 16 \<and> Fin q = Fin (of_nat k))
      \<longleftrightarrow> tileIsValid rt (JNum (Fin q)) = Some True" for q
    by (simp add: tileIsValid_number)
  have half: "tileIsValid rt (JNum (Fin (3 / 2))) = Some False"
  proof -
    have "\<not> (\<exists>k::nat. 1 \<le> k \<and> k \<le> 16 \<and> Fin (3 / 2) = Fin (of_nat k))"
    proof
      assume "\<exists>k::nat. 1 \<le> k \<and> k \<le> 16 \<and> Fin (3 / 2) = Fin (of_nat k)"
      then obtain k :: nat where "(3 / 2 :: rat) = of_nat k" by auto
      then have "(of_nat (2 * k) :: rat) = of_nat 3" by simp
      then have "2 * k = 3" by (simp only: of_nat_eq_iff)
      then show False by arith
    qed
    then show ?thesis by (simp add: tileIsValid_number)
  qed
  have seventeen: "tileIsValid rt (JNum (Fin 17)) = Some False"
    by (simp add: tileIsValid_def ToNumber_def isNaN_def rem1_def trunc_def num_le_def)
  have zero: "tileIsValid rt (JNum (Fin 0)) = Some False"
    by (simp add: tileIsValid_def ToNumber_def isNaN_def rem1_def trunc_def num_ge_def)
  have inf: "\<not> (\<exists>k::nat. 1 \<le> k \<and> k \<le> 16 \<and> PInf = Fin (of_nat k))"
    by simp
  show "makeMove rt 0 (JArr (map JNum [Fin 6, Fin (3 / 2), Fin 2])) ready
          = (MalformedMove, ready)"
    using shape_check_without_length
      [OF game, where tiles = "JArr (map JNum [Fin 6, Fin (3 / 2), Fin 2])" and rt = rt
         and ns = "[Fin 6, Fin (3 / 2), Fin 2]"] half
    unfolding list.set bex_simps nat_tile by simp
  show "makeMove rt 0 (JArr (map JNum [Fin 6, Fin 1, Fin 17])) ready = (MalformedMove, ready)"
    using shape_check_without_length
      [OF game, where tiles = "JArr (map JNum [Fin 6, Fin 1, Fin 17])" and rt = rt
         and ns = "[Fin 6, Fin 1, Fin 17]"] seventeen
    unfolding list.set bex_simps nat_tile by simp
  show "makeMove rt 0 (JArr (map JNum [Fin 0, Fin 1])) ready = (MalformedMove, ready)"
    using shape_check_without_length
      [OF game, where tiles = "JArr (map JNum [Fin 0, Fin 1])" and rt = rt
         and ns = "[Fin 0, Fin 1]"] zero
    unfolding list.set bex_simps nat_tile by simp
  show "makeMove rt 0 (JArr (map JNum [PInf, Fin 1, Fin 2])) ready = (MalformedMove, ready)"
    using shape_check_without_length
      [OF game, where tiles = "JArr (map JNum [PInf, Fin 1, Fin 2])" and rt = rt
         and ns = "[PInf, Fin 1, Fin 2]"] inf
    by simp
  show "makeMove rt 0 (JArr [tile 1, tile 2]) ready = (DisallowedMove, ready)"
    using shape_check_without_length
      [OF game, where tiles = "JArr [tile 1, tile 2]" and ts = "[tile 1, tile 2]" and rt = rt]
    by simp
  show "makeMove rt 0 (JArr []) ready = (DisallowedMove, ready)"
    using shape_check_without_length [OF game, where tiles = "JArr []" and ts = "[]" and rt = rt]
    by simp
qed

text \<open>
  Claim C1 as it is stated fails: the two valid tile indices 1 and 2, sent to a game
  that exists and has its dictionary, are fewer than 3 and are answered DisallowedMove,
  not MalformedMove.
\<close>

theorem two_tiles_are_disallowed:
  "\<forall>rt. 0 < length ready \<and> dict (ready ! 0) \<noteq> None
      \<and> tileIsValid rt (tile 1) = Some True \<and> tileIsValid rt (tile 2) = Some True
      \<and> length [tile 1, tile 2] < 3
      \<and> fst (makeMove rt 0 (JArr [tile 1, tile 2]) ready) = DisallowedMove
      \<and> fst (makeMove rt 0 (JArr [tile 1, tile 2]) ready) \<noteq> MalformedMove"
  by (simp add: ready_eq evals)


section \<open>A tile that is not a number\<close>

text \<open>
  Claim C10 does not hold of the code. The tests of \<^verbatim>\<open>tileIsValid\<close> convert their
  operand to a number, so the boolean \<^verbatim>\<open>true\<close> passes them as 1 (the comment on the
  first test reads "is number"); \<^verbatim>\<open>true + 4 === 5\<close> makes it a neighbor of 5, and the
  Set counts it apart from every number. In the game of the example, which two requests
  reach, the body \<^verbatim>\<open>[4,5,true]\<close> is accepted as the word DEA and stored in the history
  with its boolean, and the 17 tiles \<^verbatim>\<open>[16,15,14,13,12,11,10,9,8,7,6,1,2,3,4,5,true]\<close>,
  the 16 indices and \<^verbatim>\<open>true\<close>, are accepted for 16384 points, more than 8192.
\<close>

theorem boolean_tile_is_stored:
  "\<forall>rt. reachable rt ready
      \<and> tileIsValid rt (JBool True) = Some True
      \<and> fst (makeMove rt 0 (JArr [tile 4, tile 5, JBool True]) ready) = MoveMade 0 1
      \<and> history (snd (makeMove rt 0 (JArr [tile 4, tile 5, JBool True]) ready)) 0
          = [[tile 4, tile 5, JBool True]]
      \<and> length (map tile [16, 15, 14, 13, 12, 11, 10, 9, 8, 7, 6, 1, 2, 3, 4, 5] @ [JBool True])
          = 17
      \<and> fst (makeMove rt 0
               (JArr (map tile [16, 15, 14, 13, 12, 11, 10, 9, 8, 7, 6, 1, 2, 3, 4, 5]
                      @ [JBool True])) ready)
          = MoveMade 0 16384"
proof (intro allI conjI)
  fix rt
  show "reachable rt ready" by (rule reachable_ready)
  show "tileIsValid rt (JBool True) = Some True"
    by (simp add: evals)
  show "fst (makeMove rt 0 (JArr [tile 4, tile 5, JBool True]) ready) = MoveMade 0 1"
    unfolding ready_eq by (simp add: evals)
  show "history (snd (makeMove rt 0 (JArr [tile 4, tile 5, JBool True]) ready)) 0
          = [[tile 4, tile 5, JBool True]]"
    unfolding ready_eq by (simp add: evals history_def)
  show "length (map tile [16, 15, 14, 13, 12, 11, 10, 9, 8, 7, 6, 1, 2, 3, 4, 5] @ [JBool True])
          = 17"
    by simp
  show "fst (makeMove rt 0
               (JArr (map tile [16, 15, 14, 13, 12, 11, 10, 9, 8, 7, 6, 1, 2, 3, 4, 5]
                      @ [JBool True])) ready)
          = MoveMade 0 16384"
    unfolding ready_eq by (simp add: evals)
qed


section \<open>Moves whose tiles are numbers\<close>

text \<open>
  What claim C10 says does hold of the moves that are sequences of JSON numbers: such a
  move, when accepted, consists of pairwise distinct integers from 1 to 16, so it has
  between 3 and 16 tiles and scores a power of two between 1 and 8192.
\<close>

lemma Set_size_le: "Set_size ts \<le> length ts"
  by (induction ts) auto

lemma Set_size_distinct:
  "\<forall>t\<in>set ts. is_primitive t \<Longrightarrow> length ts = Set_size ts \<longleftrightarrow> distinct ts"
proof (induction ts)
  case Nil
  show ?case by simp
next
  case (Cons t ts)
  have "Set_size ts \<le> length ts" by (rule Set_size_le)
  with Cons show ?case by auto
qed

lemma allowed_is_distinct:
  "moveIsAllowed rt ts game = Some True \<Longrightarrow> length ts = Set_size ts"
  by (auto simp: moveIsAllowed_def split: if_splits option.splits)

lemma number_tiles_are_distinct_indices:
  assumes "fst (makeMove rt gameId (JArr (map JNum ns)) games) = MoveMade moveId points"
  shows "\<exists>ks. ns = map (\<lambda>k. Fin (of_nat k)) ks \<and> distinct ks
           \<and> (\<forall>k\<in>set ks. 1 \<le> k \<and> k \<le> 16)
           \<and> 3 \<le> length ks \<and> length ks \<le> 16
           \<and> points = 2 ^ (length ks - 3) \<and> 1 \<le> points \<and> points \<le> 8192"
proof -
  note facts = makeMove_made [OF assms]
  let ?ks = "map (\<lambda>n. tileNumber rt (JNum n)) ns"
  have valid: "\<forall>n\<in>set ns. tileIsValid rt (JNum n) = Some True"
    using facts(3) unfolding tilesAreValid_True by auto
  have again: "Fin (of_nat (tileNumber rt (JNum n))) = n" if "n \<in> set ns" for n
    using tileNumber_valid(1) [of rt "JNum n"] valid that by (simp add: ToNumber_def)
  have range: "\<forall>k\<in>set ?ks. 1 \<le> k \<and> k \<le> 16"
    using tileNumber_valid(2,3) valid by auto
  have ns: "ns = map (\<lambda>k. Fin (of_nat k)) ?ks"
    using again by (simp add: comp_def map_idI)
  have "moveIsAllowed rt (map JNum ns) (games ! gameId) = Some True"
    using facts(4) by simp
  then have "length (map JNum ns) = Set_size (map JNum ns)"
    by (rule allowed_is_distinct)
  moreover have "\<forall>t\<in>set (map JNum ns). is_primitive t"
    by (auto simp: is_primitive_def)
  ultimately have "distinct (map JNum ns)"
    using Set_size_distinct by blast
  then have "distinct ns" by (simp add: distinct_map)
  then have "distinct (map (\<lambda>k. Fin (of_nat k) :: jsnum) ?ks)" using ns by simp
  then have d: "distinct ?ks" by (simp only: distinct_map)
  have "set ?ks \<subseteq> {1 .. 16}" using range by auto
  then have "card (set ?ks) \<le> card {1 .. 16 :: nat}"
    by (intro card_mono) simp_all
  moreover have "card (set ?ks) = length ?ks"
    using d by (rule distinct_card)
  ultimately have upper: "length ?ks \<le> 16"
    by simp
  have lower: "3 \<le> length ?ks"
    using allowed_at_least_three [OF facts(4)] by simp
  have p: "points = 2 ^ (length ?ks - 3)"
    using facts(7) pow2_points [of "length ns"] lower by simp
  have "(2::rat) ^ (length ?ks - 3) \<le> 2 ^ 13"
    using upper by (intro power_increasing) simp_all
  with p have "1 \<le> points \<and> points \<le> 8192" by simp
  with ns d range lower upper p show ?thesis by blast
qed

section \<open>An identifier that names no game\<close>

lemma makeMoveAt_index: "makeMoveAt rt (Index n) tiles games = makeMove rt n tiles games"
  by (simp add: makeMoveAt_def gamesAt_def makeMove_cases)

lemma setGameDictAt_index:
  "setGameDictAt (Index n) dictWrapper games = setGameDict n dictWrapper games"
  by (simp add: setGameDictAt_def gamesAt_def setGameDict_cases)

text \<open>
  Claim C7 does not hold of the code for every identifier. With one game stored, no game
  is identified by \<^verbatim>\<open>length\<close>, but \<^verbatim>\<open>games["length"]\<close> is the number 1 and passes
  the test \<^verbatim>\<open>if (!game)\<close> of both handlers: a move submitted to it is answered
  DictionaryMissing, and a dictionary attached to it is answered InvalidDictionary when
  the body is not valid and with the success status when it is, storing nothing. None
  of the three is NotFound. An index that holds no game is NotFound, and for an
  identifier that is an index the checks run in the order of the claim
  (\<open>checks_in_order\<close>).
\<close>

theorem length_is_taken_for_a_game:
  "\<forall>rt. length created = 1
      \<and> makeMoveAt rt (Index 1) (JArr (map tile [6, 1, 2])) created = (NotFound, created)
      \<and> makeMoveAt rt Length (JArr (map tile [6, 1, 2])) created = (DictionaryMissing, created)
      \<and> setGameDictAt (Index 1) (JObj []) created = (NotFound, created)
      \<and> setGameDictAt Length (JObj []) created = (InvalidDictionary, created)
      \<and> setGameDictAt Length exampleWords created = (DictionarySet, created)"
  by (simp add: created_eq makeMoveAt_def setGameDictAt_def gamesAt_def makeMove_cases
      setGameDict_cases dictIsValid_def field_def exampleWords_def truthy_def
      Array_isArray_def is_string_def)

section \<open>Paths of tile indices\<close>

lemma tiles_valid:
  "\<forall>k\<in>set ks. 1 \<le> k \<and> k \<le> 16 \<Longrightarrow> \<forall>t\<in>set (map tile ks). tileIsValid rt t = Some True"
  by auto

lemma distinct_tiles: "distinct (map tile ks) \<longleftrightarrow> distinct ks"
  by (simp add: distinct_map inj_on_def tile_def)

lemma moveIsAllowed_indices:
  assumes "dict game = Some d" and "length (board game) = 16"
    and "\<forall>k\<in>set ks. 1 \<le> k \<and> k \<le> 16"
  shows "moveIsAllowed rt (map tile ks) game =
           Some (3 \<le> length ks
                 \<and> (\<forall>i. 0 < i \<and> i < length ks \<longrightarrow> int (ks ! i) - int (ks ! (i - 1)) \<in> offsets)
                 \<and> distinct ks
                 \<and> d (derivedWord (board game) ks) = Some True)"
proof -
  have valid: "\<forall>t\<in>set (map tile ks). tileIsValid rt t = Some True"
    using assms(3) by (rule tiles_valid)
  have "\<forall>t\<in>set (map tile ks). is_primitive t"
    by (auto simp: is_primitive_def tile_def)
  then have unique: "length (map tile ks) = Set_size (map tile ks) \<longleftrightarrow> distinct ks"
    using Set_size_distinct [of "map tile ks"] distinct_tiles [of ks] by blast
  have numbers: "map (tileNumber rt) (map tile ks) = ks"
    by (simp add: comp_def)
  from moveIsAllowed_valid [OF valid assms(2) assms(1)]
  have "moveIsAllowed rt (map tile ks) game =
      Some (3 \<le> length (map tile ks)
            \<and> (\<forall>i. 0 < i \<and> i < length ks \<longrightarrow> int (ks ! i) - int (ks ! (i - 1)) \<in> offsets)
            \<and> length (map tile ks) = Set_size (map tile ks)
            \<and> d (derivedWord (board game) (map (tileNumber rt) (map tile ks))) = Some True)"
    unfolding path_by_offsets [OF assms(3)] by blast
  then show ?thesis
    unfolding unique numbers by simp
qed

text \<open>
  Claim C2. Two consecutive tile indices of a path (numbers from 1 to 16) are
  neighbors exactly when the second minus the first is one of 1, -1, 3, -3, 4, -4, 5, -5,
  and nothing looks at the rows: 4 and 5, the end of the first row and the start of the second, are neighbors.
  The first tile of a path has no predecessor and always passes. A path of tile indices
  passes the check of the neighbors exactly when every step of it is one of these
  offsets, and on a board of 16 letters it is allowed exactly when it has 3 tiles or
  more, every step is one of these offsets, no index repeats and its word is in the
  dictionary. So the path [6,1,2] passes the check of the neighbors and [12,15,1,4]
  fails it (at the step from 15 to 1; the step from 12 to 15 is the offset 3 and
  passes); the check reads neither the board nor the dictionary. In every game that has
  a dictionary, [12,15,1,4] is answered DisallowedMove whatever the letters and the words
  are, and [6,1,2] is allowed exactly when the word it spells is in the dictionary.
\<close>

theorem neighbors_by_offset:
  "(0 < index \<and> index < length tiles \<and> 1 \<le> a \<and> a \<le> 16 \<and> 1 \<le> b \<and> b \<le> 16
      \<and> tiles ! (index - 1) = tile a \<longrightarrow>
      isConsecutiveNeighbor rt (tile b) index tiles = Some (int b - int a \<in> offsets))
   \<and> isConsecutiveNeighbor rt t 0 tiles = Some True
   \<and> isConsecutiveNeighbor rt (tile 5) 1 [tile 4, tile 5] = Some True
   \<and> ((\<forall>k\<in>set ks. 1 \<le> k \<and> k \<le> 16) \<longrightarrow>
        allNeighbors rt (map tile ks) =
          Some (\<forall>i. 0 < i \<and> i < length ks \<longrightarrow> int (ks ! i) - int (ks ! (i - 1)) \<in> offsets))
   \<and> (dict game = Some d \<and> length (board game) = 16 \<and> (\<forall>k\<in>set ks. 1 \<le> k \<and> k \<le> 16) \<longrightarrow>
        moveIsAllowed rt (map tile ks) game =
          Some (3 \<le> length ks
                \<and> (\<forall>i. 0 < i \<and> i < length ks \<longrightarrow>
                      int (ks ! i) - int (ks ! (i - 1)) \<in> offsets)
                \<and> distinct ks
                \<and> d (derivedWord (board game) ks) = Some True))
   \<and> allNeighbors rt (map tile [6, 1, 2]) = Some True
   \<and> allNeighbors rt (map tile [12, 15, 1, 4]) = Some False
   \<and> (gameId < length games \<and> dict (games ! gameId) \<noteq> None \<longrightarrow>
        fst (makeMove rt gameId (JArr (map tile [12, 15, 1, 4])) games) = DisallowedMove)
   \<and> (dict game = Some d \<longrightarrow>
        (\<exists>word. tilesToWord rt (map tile [6, 1, 2]) game = Some word
           \<and> moveIsAllowed rt (map tile [6, 1, 2]) game = Some (lookup d word)))"
proof (intro conjI impI)
  assume "0 < index \<and> index < length tiles \<and> 1 \<le> a \<and> a \<le> 16 \<and> 1 \<le> b \<and> b \<le> 16
      \<and> tiles ! (index - 1) = tile a"
  then show "isConsecutiveNeighbor rt (tile b) index tiles = Some (int b - int a \<in> offsets)"
    by (intro neighbor_of_numbers) simp_all
next
  show "isConsecutiveNeighbor rt t 0 tiles = Some True"
    by (simp add: isConsecutiveNeighbor_def)
next
  show "isConsecutiveNeighbor rt (tile 5) 1 [tile 4, tile 5] = Some True"
    by (simp add: isConsecutiveNeighbor_def tile_def)
next
  assume "\<forall>k\<in>set ks. 1 \<le> k \<and> k \<le> 16"
  then show "allNeighbors rt (map tile ks) =
          Some (\<forall>i. 0 < i \<and> i < length ks \<longrightarrow> int (ks ! i) - int (ks ! (i - 1)) \<in> offsets)"
    by (rule path_by_offsets)
next
  assume "dict game = Some d \<and> length (board game) = 16 \<and> (\<forall>k\<in>set ks. 1 \<le> k \<and> k \<le> 16)"
  then show "moveIsAllowed rt (map tile ks) game =
          Some (3 \<le> length ks
                \<and> (\<forall>i. 0 < i \<and> i < length ks \<longrightarrow>
                      int (ks ! i) - int (ks ! (i - 1)) \<in> offsets)
                \<and> distinct ks
                \<and> d (derivedWord (board game) ks) = Some True)"
    by (intro moveIsAllowed_indices) blast+
next
  show "allNeighbors rt (map tile [6, 1, 2]) = Some True"
    by (rule fab_neighbors)
next
  show "allNeighbors rt (map tile [12, 15, 1, 4]) = Some False"
    by (rule load_not_neighbors)
next
  assume game: "gameId < length games \<and> dict (games ! gameId) \<noteq> None"
  have "moveIsAllowed rt (map tile [12, 15, 1, 4]) (games ! gameId) = Some False"
    unfolding moveIsAllowed_def load_not_neighbors by simp
  then have "moveIsAllowed rt (elems (JArr (map tile [12, 15, 1, 4]))) (games ! gameId)
      = Some False"
    unfolding elems_JArr .
  with game load_valid show "fst (makeMove rt gameId (JArr (map tile [12, 15, 1, 4])) games)
      = DisallowedMove"
    by (intro makeMove_disallowed) blast+
next
  assume "dict game = Some d"
  then have "moveIsAllowed rt (map tile [6, 1, 2]) game
      = Some (lookup d (toUpperCase (board_at (board game) (Fin 5)
               @ board_at (board game) (Fin 0) @ board_at (board game) (Fin 1))))"
    unfolding moveIsAllowed_def fab_neighbors fab_word
    by (simp add: is_primitive_def tile_def)
  with fab_word [of rt game]
  show "\<exists>word. tilesToWord rt (map tile [6, 1, 2]) game = Some word
           \<and> moveIsAllowed rt (map tile [6, 1, 2]) game = Some (lookup d word)"
    by blast
qed

lemma steps_of_three:
  "(\<forall>i. 0 < i \<and> i < length [x, y, z] \<longrightarrow> P i) \<longleftrightarrow> P 1 \<and> P 2"
proof
  assume "\<forall>i. 0 < i \<and> i < length [x, y, z] \<longrightarrow> P i"
  then show "P 1 \<and> P 2" by simp
next
  assume p: "P 1 \<and> P 2"
  show "\<forall>i. 0 < i \<and> i < length [x, y, z] \<longrightarrow> P i"
  proof (intro allI impI)
    fix i assume "0 < i \<and> i < length [x, y, z]"
    then have "i = 1 \<or> i = 2" by auto
    with p show "P i" by auto
  qed
qed

theorem neighbors_by_offset_witness:
  "\<forall>rt. isConsecutiveNeighbor rt (tile 1) 1 (map tile [6, 1, 2]) = Some True
      \<and> isConsecutiveNeighbor rt (tile 15) 1 (map tile [12, 15, 1, 4]) = Some True
      \<and> isConsecutiveNeighbor rt (tile 1) 2 (map tile [12, 15, 1, 4]) = Some False
      \<and> allNeighbors rt (map tile [1, 16, 8]) = Some False
      \<and> allNeighbors rt (map tile [1, 2, 6]) = Some True
      \<and> moveIsAllowed rt (map tile [1, 2, 6]) (ready ! 0) = Some True
      \<and> moveIsAllowed rt (map tile [1, 16, 8]) (ready ! 0) = Some False
      \<and> fst (makeMove rt 0 (JArr (map tile [12, 15, 1, 4])) ready) = DisallowedMove
      \<and> (\<exists>word. tilesToWord rt (map tile [6, 1, 2]) (ready ! 0) = Some word
            \<and> moveIsAllowed rt (map tile [6, 1, 2]) (ready ! 0)
                = Some (lookup (the (dict (ready ! 0))) word))"
proof (intro allI conjI)
  fix rt
  let ?d = "the (dict (ready ! 0))"
  have game: "dict (ready ! 0) = Some ?d" "length (board (ready ! 0)) = 16"
    by (simp_all add: ready_eq)
  show "isConsecutiveNeighbor rt (tile 1) 1 (map tile [6, 1, 2]) = Some True"
    using neighbors_by_offset [where index = 1 and tiles = "map tile [6, 1, 2]" and a = 6
        and b = 1 and rt = rt]
    by (simp add: offsets_def)
  show "isConsecutiveNeighbor rt (tile 15) 1 (map tile [12, 15, 1, 4]) = Some True"
    using neighbors_by_offset [where index = 1 and tiles = "map tile [12, 15, 1, 4]" and a = 12
        and b = 15 and rt = rt]
    by (simp add: offsets_def)
  show "isConsecutiveNeighbor rt (tile 1) 2 (map tile [12, 15, 1, 4]) = Some False"
    using neighbors_by_offset [where index = 2 and tiles = "map tile [12, 15, 1, 4]" and a = 15
        and b = 1 and rt = rt]
    by (simp add: offsets_def)
  have far: "\<not> (\<forall>i. 0 < i \<and> i < length [1, 16, 8 :: nat] \<longrightarrow>
                  int ([1, 16, 8] ! i) - int ([1, 16, 8] ! (i - 1)) \<in> offsets)"
    unfolding steps_of_three by (simp add: offsets_def)
  have near: "\<forall>i. 0 < i \<and> i < length [1, 2, 6 :: nat] \<longrightarrow>
                  int ([1, 2, 6] ! i) - int ([1, 2, 6] ! (i - 1)) \<in> offsets"
    unfolding steps_of_three by (simp add: offsets_def)
  show "allNeighbors rt (map tile [1, 16, 8]) = Some False"
    using neighbors_by_offset [where ks = "[1, 16, 8]" and rt = rt] far
    by simp
  show "allNeighbors rt (map tile [1, 2, 6]) = Some True"
    using neighbors_by_offset [where ks = "[1, 2, 6]" and rt = rt] near
    by simp
  have abf: "?d (derivedWord (board (ready ! 0)) [1, 2, 6]) = Some True"
    by (simp add: ready_eq derivedWord_def toUpperCase_def upper_def lowerCase_def
        upperCase_def)
  show "moveIsAllowed rt (map tile [1, 2, 6]) (ready ! 0) = Some True"
    using neighbors_by_offset [where ks = "[1, 2, 6]" and rt = rt and game = "ready ! 0"
        and d = ?d] game near abf
    by simp
  show "moveIsAllowed rt (map tile [1, 16, 8]) (ready ! 0) = Some False"
    using neighbors_by_offset [where ks = "[1, 16, 8]" and rt = rt and game = "ready ! 0"
        and d = ?d] game far
    by simp
  show "fst (makeMove rt 0 (JArr (map tile [12, 15, 1, 4])) ready) = DisallowedMove"
    using neighbors_by_offset [where rt = rt and gameId = 0 and games = ready]
    by (simp add: ready_eq)
  show "\<exists>word. tilesToWord rt (map tile [6, 1, 2]) (ready ! 0) = Some word
            \<and> moveIsAllowed rt (map tile [6, 1, 2]) (ready ! 0)
                = Some (lookup (the (dict (ready ! 0))) word)"
    using neighbors_by_offset [where rt = rt and game = "ready ! 0" and d = ?d] game(1)
    by simp
qed

end
